theory Spec2Isabelle
  imports Main "HOL-Library.Word"
begin

section \<open>Status values\<close>

text \<open>
  The status codes that \<^verbatim>\<open>statefulmodelinstance.cpp\<close> returns or passes on. The external
  steps (generic request validation, deserialization, inference, serialization) report
  failures of their own; the four codes after \<open>INTERNAL_ERROR\<close> stand for those.
\<close>

datatype StatusCode =
    OK
  | SPECIAL_INPUT_NO_TENSOR_SHAPE
  | INVALID_NO_OF_SHAPE_DIMENSIONS
  | INVALID_SHAPE
  | SEQUENCE_ID_BAD_TYPE
  | SEQUENCE_CONTROL_INPUT_BAD_TYPE
  | INVALID_SEQUENCE_CONTROL_INPUT
  | SEQUENCE_ID_NOT_PROVIDED
  | SEQUENCE_MISSING
  | SEQUENCE_ALREADY_EXISTS
  | MAX_SEQUENCES_REACHED
  | INTERNAL_ERROR
  | INVALID_MISSING_INPUT
  | OV_INTERNAL_DESERIALIZATION_ERROR
  | OV_INTERNAL_INFERENCE_ERROR
  | OV_INTERNAL_SERIALIZATION_ERROR

text \<open>
  A \<^verbatim>\<open>Status\<close> is a code with an optional detail message:
  \<^verbatim>\<open>Status(StatusCode::INVALID_SHAPE, "Required shape for sequence_id is: (1)")\<close>.
  A status built from a bare code carries no details.
\<close>

datatype Status = Status (getCode: StatusCode) (details: string)

definition fromCode :: "StatusCode \<Rightarrow> Status" where
  "fromCode c = Status c []"

definition ok :: "Status \<Rightarrow> bool" where
  "ok s = (getCode s = OK)"

section \<open>Request and response envelopes\<close>

datatype DataType = DT_INVALID | DT_FLOAT | DT_INT32 | DT_UINT32 | DT_INT64 | DT_UINT64

text \<open>
  The fields of \<^verbatim>\<open>tensorflow::TensorProto\<close> that the file reads or writes:
  \<open>tensor_shape\<close> lists the sizes of the dimensions (\<^verbatim>\<open>dim_size()\<close> is its length,
  \<^verbatim>\<open>dim(i).size()\<close> its \<open>i\<close>-th entry, a 64-bit integer), \<open>uint64_val\<close> and \<open>uint32_val\<close>
  are the repeated typed value fields.
\<close>

record TensorProto =
  dtype :: DataType
  tensor_shape :: "64 word list"
  uint64_val :: "64 word list"
  uint32_val :: "32 word list"

definition emptyTensorProto :: TensorProto where
  "emptyTensorProto = \<lparr>dtype = DT_INVALID, tensor_shape = [], uint64_val = [], uint32_val = []\<rparr>"

record PredictRequest =
  inputs :: "string \<rightharpoonup> TensorProto"

record PredictResponse =
  outputs :: "string \<rightharpoonup> TensorProto"

section \<open>The processing spec and the control signals\<close>

text \<open>The fields are named after their getters, \<^verbatim>\<open>getSequenceId()\<close> and
  \<^verbatim>\<open>getSequenceControlInput()\<close>; the setters are record updates.\<close>

record SequenceProcessingSpec =
  getSequenceControlInput :: "32 word"
  getSequenceId :: "64 word"

text \<open>
  Modelled from the spec: the header that declares the three control constants is not part
  of the sources; the specification fixes their wire encoding, CONTINUE as 0, START as 1
  and END as 2.
\<close>

definition NO_CONTROL_INPUT :: "32 word" where
  "NO_CONTROL_INPUT = 0"

definition SEQUENCE_START :: "32 word" where
  "SEQUENCE_START = 1"

definition SEQUENCE_END :: "32 word" where
  "SEQUENCE_END = 2"

section \<open>Extraction of the two special inputs\<close>

text \<open>
  \<^verbatim>\<open>extractSequenceId(proto, sequenceId)\<close> writes the out-parameter only on success; the
  model takes the parameter's old value and returns the new one beside the status.
\<close>

definition extractSequenceId :: "TensorProto \<Rightarrow> 64 word \<Rightarrow> Status \<times> 64 word" where
  "extractSequenceId proto sequenceId =
    (if length (tensor_shape proto) = 0 then
       (fromCode SPECIAL_INPUT_NO_TENSOR_SHAPE, sequenceId)
     else if length (tensor_shape proto) \<noteq> 1 then
       (Status INVALID_NO_OF_SHAPE_DIMENSIONS ''Required shape for sequence_id is: (1)'', sequenceId)
     else if tensor_shape proto ! 0 \<noteq> 1 then
       (Status INVALID_SHAPE ''Required shape for sequence_id is: (1)'', sequenceId)
     else if length (uint64_val proto) = 1 then
       (fromCode OK, uint64_val proto ! 0)
     else
       (fromCode SEQUENCE_ID_BAD_TYPE, sequenceId))"

definition extractSequenceControlInput :: "TensorProto \<Rightarrow> 32 word \<Rightarrow> Status \<times> 32 word" where
  "extractSequenceControlInput proto sequenceControlInput =
    (if length (tensor_shape proto) = 0 then
       (fromCode SPECIAL_INPUT_NO_TENSOR_SHAPE, sequenceControlInput)
     else if length (tensor_shape proto) \<noteq> 1 then
       (Status INVALID_NO_OF_SHAPE_DIMENSIONS ''Required shape for sequence_control_input is: (1)'',
        sequenceControlInput)
     else if tensor_shape proto ! 0 \<noteq> 1 then
       (Status INVALID_SHAPE ''Required shape for sequence_control_input is: (1)'',
        sequenceControlInput)
     else if length (uint32_val proto) = 1 then
       (fromCode OK, uint32_val proto ! 0)
     else
       (fromCode SEQUENCE_CONTROL_INPUT_BAD_TYPE, sequenceControlInput))"

section \<open>Validation of the special keys\<close>

text \<open>
  The cross-field rule at the end of \<^verbatim>\<open>validateSpecialKeys\<close>, on the two locals
  \<open>sequenceId\<close> and \<open>sequenceControlInput\<close> as extraction left them.
\<close>

definition checkSpecialKeys ::
  "64 word \<Rightarrow> 32 word \<Rightarrow> SequenceProcessingSpec \<Rightarrow> Status \<times> SequenceProcessingSpec" where
  "checkSpecialKeys sequenceId sequenceControlInput sequenceProcessingSpec =
    (if sequenceControlInput \<noteq> SEQUENCE_END \<and> sequenceControlInput \<noteq> NO_CONTROL_INPUT
        \<and> sequenceControlInput \<noteq> SEQUENCE_START then
       (fromCode INVALID_SEQUENCE_CONTROL_INPUT, sequenceProcessingSpec)
     else if (sequenceControlInput = SEQUENCE_END \<or> sequenceControlInput = NO_CONTROL_INPUT)
        \<and> sequenceId = 0 then
       (fromCode SEQUENCE_ID_NOT_PROVIDED, sequenceProcessingSpec)
     else
       (fromCode OK,
        sequenceProcessingSpec\<lparr>getSequenceId := sequenceId,
          getSequenceControlInput := sequenceControlInput\<rparr>))"

text \<open>
  The two locals after the extraction part of \<^verbatim>\<open>validateSpecialKeys\<close>: both start at 0, an
  input that is present is extracted, and the first failing extraction is returned at once.
\<close>

definition extractSpecialKeys :: "PredictRequest \<Rightarrow> Status + (64 word \<times> 32 word)" where
  "extractSpecialKeys request =
    (let sequenceId = (0 :: 64 word); sequenceControlInput = (0 :: 32 word) in
     case (case inputs request ''sequence_id'' of
             None \<Rightarrow> (fromCode OK, sequenceId)
           | Some proto \<Rightarrow> extractSequenceId proto sequenceId) of
       (status, sequenceId) \<Rightarrow>
         if \<not> ok status then Inl status
         else
           case (case inputs request ''sequence_control_input'' of
                   None \<Rightarrow> (fromCode OK, sequenceControlInput)
                 | Some proto \<Rightarrow> extractSequenceControlInput proto sequenceControlInput) of
             (status, sequenceControlInput) \<Rightarrow>
               if \<not> ok status then Inl status
               else Inr (sequenceId, sequenceControlInput))"

definition validateSpecialKeys ::
  "PredictRequest \<Rightarrow> SequenceProcessingSpec \<Rightarrow> Status \<times> SequenceProcessingSpec" where
  "validateSpecialKeys request sequenceProcessingSpec =
    (case extractSpecialKeys request of
       Inl status \<Rightarrow> (status, sequenceProcessingSpec)
     | Inr (sequenceId, sequenceControlInput) \<Rightarrow>
         checkSpecialKeys sequenceId sequenceControlInput sequenceProcessingSpec)"

text \<open>
  \<^verbatim>\<open>validate\<close> runs \<^verbatim>\<open>validateSpecialKeys\<close> and then the generic validation of
  \<^verbatim>\<open>request_validation_utils\<close>, an external collaborator taken as a parameter (it already
  holds the model's inputs info, the special input names, batching mode and shapes).
\<close>

definition validate ::
  "(PredictRequest \<Rightarrow> Status) \<Rightarrow> PredictRequest \<Rightarrow> SequenceProcessingSpec
    \<Rightarrow> Status \<times> SequenceProcessingSpec" where
  "validate request_validation request sequenceProcessingSpec =
    (case validateSpecialKeys request sequenceProcessingSpec of
       (status, sequenceProcessingSpec) \<Rightarrow>
         if \<not> ok status then (status, sequenceProcessingSpec)
         else (request_validation request, sequenceProcessingSpec))"

section \<open>The inference handle and its state slots\<close>

type_synonym Tensor = "nat list"

text \<open>
  One \<^verbatim>\<open>ov::VariableState\<close> of the runtime: its name, its current payload, and the model's
  default that \<^verbatim>\<open>reset()\<close> restores.
\<close>

record VariableState =
  get_name :: string
  get_state :: Tensor
  default_state :: Tensor

definition reset :: "VariableState \<Rightarrow> VariableState" where
  "reset state = state\<lparr>get_state := default_state state\<rparr>"

definition set_state :: "Tensor \<Rightarrow> VariableState \<Rightarrow> VariableState" where
  "set_state tensor state = state\<lparr>get_state := tensor\<rparr>"

text \<open>
  An \<^verbatim>\<open>ov::InferRequest\<close>: the state slots \<^verbatim>\<open>query_state()\<close> lists, in the runtime's
  order, and the input and output tensors the external steps work on.
\<close>

record InferRequest =
  query_state :: "VariableState list"
  tensors :: "string \<rightharpoonup> Tensor"

section \<open>Sequence and SequenceManager\<close>

type_synonym sequence_memory_state_t = "string \<rightharpoonup> Tensor"

record Sequence =
  memoryState :: sequence_memory_state_t
  idle :: bool

text \<open>
  Modelled from the spec: \<^verbatim>\<open>Sequence::getMemoryState\<close> is not part of the sources; it
  returns the Sequence's MemoryStateMap.
\<close>

definition getMemoryState :: "Sequence \<Rightarrow> sequence_memory_state_t" where
  "getMemoryState sequence = memoryState sequence"

text \<open>
  Modelled from the spec: \<^verbatim>\<open>Sequence::updateMemoryState\<close> is not part of the sources; it
  replaces the MemoryStateMap wholesale with the supplied (name, payload) pairs, so that a
  key that is not in the new list is dropped. The pairs are stored in the list's order.
\<close>

definition updateMemoryState :: "VariableState list \<Rightarrow> Sequence \<Rightarrow> Sequence" where
  "updateMemoryState newState sequence =
    sequence\<lparr>memoryState := map_of (rev (map (\<lambda>state. (get_name state, get_state state)) newState))\<rparr>"

text \<open>
  Modelled from the spec: the \<^verbatim>\<open>SequenceManager\<close> class is not part of the sources. It owns
  a mapping from sequence id to Sequence with unique keys, kept here as an association list,
  and the bound \<open>maxSequenceNumber\<close>; its population is the number of entries.
\<close>

record SequenceManager =
  sequences :: "(64 word \<times> Sequence) list"
  maxSequenceNumber :: nat

text \<open>Modelled from the spec: \<^verbatim>\<open>sequenceExists\<close> and \<^verbatim>\<open>getSequence\<close> are lookups.\<close>

definition sequenceExists :: "SequenceManager \<Rightarrow> 64 word \<Rightarrow> bool" where
  "sequenceExists manager sequenceId = (map_of (sequences manager) sequenceId \<noteq> None)"

definition getSequence :: "SequenceManager \<Rightarrow> 64 word \<Rightarrow> Sequence option" where
  "getSequence manager sequenceId = map_of (sequences manager) sequenceId"

text \<open>
  Modelled from the spec: \<^verbatim>\<open>removeSequence\<close> deletes the entry. The source checks the status
  it returns, and the only sequence-lifecycle failure the specification knows for an unknown
  id is \<open>SEQUENCE_MISSING\<close>.
\<close>

definition removeSequence :: "SequenceManager \<Rightarrow> 64 word \<Rightarrow> Status \<times> SequenceManager" where
  "removeSequence manager sequenceId =
    (if sequenceExists manager sequenceId then
       (fromCode OK,
        manager\<lparr>sequences := filter (\<lambda>entry. fst entry \<noteq> sequenceId) (sequences manager)\<rparr>)
     else (fromCode SEQUENCE_MISSING, manager))"

text \<open>
  Modelled from the spec: a START creates a Sequence with an empty MemoryStateMap. The
  specification leaves the initial value of the idle flag open; a new Sequence starts active.
\<close>

definition newSequence :: Sequence where
  "newSequence = \<lparr>memoryState = Map.empty, idle = False\<rparr>"

definition createSequence :: "SequenceManager \<Rightarrow> 64 word \<Rightarrow> SequenceManager" where
  "createSequence manager sequenceId =
    manager\<lparr>sequences := (sequenceId, newSequence) # sequences manager\<rparr>"

text \<open>
  Modelled from the spec: id generation on START with id 0 scans for an unused id. The scan
  takes the first of the ids 1, 2, ..., population + 1 that is not in use; it finds none only
  when every one of these ids wraps onto 0 or a used id, that is when the 64-bit id space is
  exhausted.
\<close>

definition getUniqueSequenceId :: "SequenceManager \<Rightarrow> 64 word option" where
  "getUniqueSequenceId manager =
    find (\<lambda>candidate. candidate \<noteq> 0 \<and> \<not> sequenceExists manager candidate)
      (map of_nat [1 ..< length (sequences manager) + 2])"

text \<open>
  Modelled from the spec: \<^verbatim>\<open>processRequestedSpec\<close> is not part of the sources; this is the
  table of the specification, row by row. The spec is updated in place on START with id 0, so
  the function returns it beside the status and the manager. An exhausted id space is reported
  as the population bound is. Any control value other than the three signals is rejected.
\<close>

definition processRequestedSpec ::
  "SequenceManager \<Rightarrow> SequenceProcessingSpec
    \<Rightarrow> Status \<times> SequenceProcessingSpec \<times> SequenceManager" where
  "processRequestedSpec manager sequenceProcessingSpec =
    (let control = getSequenceControlInput sequenceProcessingSpec;
         sequenceId = getSequenceId sequenceProcessingSpec in
     if control = SEQUENCE_START then
       if sequenceId = 0 then
         if maxSequenceNumber manager \<le> length (sequences manager) then
           (fromCode MAX_SEQUENCES_REACHED, sequenceProcessingSpec, manager)
         else
           case getUniqueSequenceId manager of
             None \<Rightarrow> (fromCode MAX_SEQUENCES_REACHED, sequenceProcessingSpec, manager)
           | Some uniqueId \<Rightarrow>
               (fromCode OK, sequenceProcessingSpec\<lparr>getSequenceId := uniqueId\<rparr>,
                createSequence manager uniqueId)
       else if sequenceExists manager sequenceId then
         (fromCode SEQUENCE_ALREADY_EXISTS, sequenceProcessingSpec, manager)
       else if maxSequenceNumber manager \<le> length (sequences manager) then
         (fromCode MAX_SEQUENCES_REACHED, sequenceProcessingSpec, manager)
       else
         (fromCode OK, sequenceProcessingSpec, createSequence manager sequenceId)
     else if control = NO_CONTROL_INPUT \<or> control = SEQUENCE_END then
       if sequenceId = 0 then
         (fromCode SEQUENCE_ID_NOT_PROVIDED, sequenceProcessingSpec, manager)
       else if sequenceExists manager sequenceId then
         (fromCode OK, sequenceProcessingSpec, manager)
       else
         (fromCode SEQUENCE_MISSING, sequenceProcessingSpec, manager)
     else
       (fromCode INVALID_SEQUENCE_CONTROL_INPUT, sequenceProcessingSpec, manager))"

text \<open>
  \<^verbatim>\<open>Sequence& sequence = getSequence(sequenceId)\<close> is a reference into the manager's mapping:
  a write through it lands in the entry of that id.
\<close>

definition storeSequence :: "SequenceManager \<Rightarrow> 64 word \<Rightarrow> Sequence \<Rightarrow> SequenceManager" where
  "storeSequence manager sequenceId sequence =
    manager\<lparr>sequences :=
      map (\<lambda>entry. if fst entry = sequenceId then (sequenceId, sequence) else entry)
        (sequences manager)\<rparr>"

section \<open>Pre- and post-inference processing\<close>

text \<open>
  The loop of the CONTINUE and END branch of \<^verbatim>\<open>preInferenceProcessing\<close>: the state slots are
  visited in order, each is set from the saved map, and the first slot whose name the map does
  not hold ends the call with \<open>INTERNAL_ERROR\<close>, the slots before it already set.
\<close>

fun restoreStates ::
  "sequence_memory_state_t \<Rightarrow> VariableState list \<Rightarrow> Status \<times> VariableState list" where
  "restoreStates sequenceMemoryState [] = (fromCode OK, [])"
| "restoreStates sequenceMemoryState (state # states) =
    (let stateName = get_name state in
     case sequenceMemoryState stateName of
       None \<Rightarrow> (fromCode INTERNAL_ERROR, state # states)
     | Some tensor \<Rightarrow>
         (case restoreStates sequenceMemoryState states of
            (status, states') \<Rightarrow> (status, set_state tensor state # states')))"

definition preInferenceProcessing ::
  "InferRequest \<Rightarrow> Sequence \<Rightarrow> SequenceProcessingSpec \<Rightarrow> Status \<times> InferRequest" where
  "preInferenceProcessing inferRequest sequence sequenceProcessingSpec =
    (if getSequenceControlInput sequenceProcessingSpec = SEQUENCE_START then
       (fromCode OK, inferRequest\<lparr>query_state := map reset (query_state inferRequest)\<rparr>)
     else
       let sequenceMemoryState = getMemoryState sequence in
       case restoreStates sequenceMemoryState (query_state inferRequest) of
         (status, states) \<Rightarrow> (status, inferRequest\<lparr>query_state := states\<rparr>))"

text \<open>
  \<^verbatim>\<open>(*response->mutable_outputs())["sequence_id"]\<close> yields the entry of that name, a
  default-constructed tensor proto when there is none; \<^verbatim>\<open>add_dim\<close> and \<^verbatim>\<open>add_uint64_val\<close>
  append to its repeated fields.
\<close>

definition postInferenceProcessing ::
  "PredictResponse \<Rightarrow> InferRequest \<Rightarrow> Sequence \<Rightarrow> SequenceProcessingSpec
    \<Rightarrow> Status \<times> PredictResponse \<times> InferRequest \<times> Sequence" where
  "postInferenceProcessing response inferRequest sequence sequenceProcessingSpec =
    (case (if getSequenceControlInput sequenceProcessingSpec = SEQUENCE_END then
             (inferRequest\<lparr>query_state := map reset (query_state inferRequest)\<rparr>, sequence)
           else
             let modelState = query_state inferRequest in
             (inferRequest, updateMemoryState modelState sequence)) of
       (inferRequest, sequence) \<Rightarrow>
         let tensorProto =
               (case outputs response ''sequence_id'' of
                  None \<Rightarrow> emptyTensorProto
                | Some existing \<Rightarrow> existing);
             tensorProto = tensorProto\<lparr>tensor_shape := tensor_shape tensorProto @ [1]\<rparr>;
             tensorProto = tensorProto\<lparr>dtype := DT_UINT64\<rparr>;
             tensorProto = tensorProto\<lparr>uint64_val :=
               uint64_val tensorProto @ [getSequenceId sequenceProcessingSpec]\<rparr>
         in (fromCode OK,
             response\<lparr>outputs := (outputs response)(''sequence_id'' \<mapsto> tensorProto)\<rparr>,
             inferRequest, sequence))"

section \<open>The inference pipeline\<close>

text \<open>
  What \<^verbatim>\<open>infer\<close> acquires and releases, in program order: the manager's mutex, the mutex
  of one Sequence, and a slot of the infer requests queue (the \<^verbatim>\<open>ExecutingStreamIdGuard\<close>).
\<close>

datatype Resource = ManagerMutex | SequenceMutex "64 word" | InferRequestsQueue

datatype Event = Acquire Resource | Release Resource

text \<open>
  The state \<^verbatim>\<open>infer\<close> works on: the model instance's SequenceManager, the infer request
  the queue hands out, the response under construction, and the log of lock events.
\<close>

record World =
  theSequenceManager :: SequenceManager
  theInferRequest :: InferRequest
  theResponse :: PredictResponse
  lockEvents :: "Event list"

definition emit :: "Event \<Rightarrow> World \<Rightarrow> World" where
  "emit event w = w\<lparr>lockEvents := lockEvents w @ [event]\<rparr>"

text \<open>
  The external collaborators of \<^verbatim>\<open>infer\<close>, taken as parameters: generic request
  validation, deserialization of the request into the infer request, the inference step, and
  serialization of the outputs into the response.
\<close>

record External =
  request_validation_utils_validate :: "PredictRequest \<Rightarrow> Status"
  deserializePredictRequest :: "PredictRequest \<Rightarrow> InferRequest \<Rightarrow> Status \<times> InferRequest"
  performInference :: "InferRequest \<Rightarrow> Status \<times> InferRequest"
  serializePredictResponse :: "InferRequest \<Rightarrow> PredictResponse \<Rightarrow> Status \<times> PredictResponse"

text \<open>
  The default-constructed \<^verbatim>\<open>SequenceProcessingSpec\<close> of \<^verbatim>\<open>infer\<close>. Its header is not part
  of the sources; \<^verbatim>\<open>validateSpecialKeys\<close> sets both fields before \<^verbatim>\<open>infer\<close> reads them.
\<close>

definition initialSequenceProcessingSpec :: SequenceProcessingSpec where
  "initialSequenceProcessingSpec = \<lparr>getSequenceControlInput = 0, getSequenceId = 0\<rparr>"

text \<open>
  Lines 213 to 228 of \<^verbatim>\<open>infer\<close>: validation, then the manager's mutex, the requested spec,
  the lookup of the target Sequence, the Sequence's mutex, and the release of the manager's
  mutex. An early return is \<open>Inl\<close>, with the \<^verbatim>\<open>unique_lock\<close> that is still owned released
  by its destructor; \<open>Inr\<close> carries the spec and the Sequence the reference denotes on to the
  rest of the function. The lookup cannot fail after \<^verbatim>\<open>sequenceExists\<close> has answered yes.
\<close>

definition infer_handoff ::
  "External \<Rightarrow> PredictRequest \<Rightarrow> World
    \<Rightarrow> (Status \<times> World) + (SequenceProcessingSpec \<times> Sequence \<times> World)" where
  "infer_handoff ext requestProto w =
    (case validate (request_validation_utils_validate ext) requestProto
            initialSequenceProcessingSpec of
       (status, sequenceProcessingSpec) \<Rightarrow>
         if \<not> ok status then Inl (status, w)
         else
           let w = emit (Acquire ManagerMutex) w in
           case processRequestedSpec (theSequenceManager w) sequenceProcessingSpec of
             (status, sequenceProcessingSpec, manager) \<Rightarrow>
               let w = w\<lparr>theSequenceManager := manager\<rparr> in
               if \<not> ok status then Inl (status, emit (Release ManagerMutex) w)
               else
                 let sequenceId = getSequenceId sequenceProcessingSpec in
                 if \<not> sequenceExists (theSequenceManager w) sequenceId then
                   Inl (fromCode INTERNAL_ERROR, emit (Release ManagerMutex) w)
                 else
                   (case getSequence (theSequenceManager w) sequenceId of
                      None \<Rightarrow> Inl (fromCode INTERNAL_ERROR, emit (Release ManagerMutex) w)
                    | Some sequence \<Rightarrow>
                        let w = emit (Acquire (SequenceMutex sequenceId)) w;
                            w = emit (Release ManagerMutex) w
                        in Inr (sequenceProcessingSpec, sequence, w)))"

text \<open>
  The scope exit of a failing step between lines 230 and 281: the guard of the infer request
  is destroyed first, then the lock of the Sequence; the manager's lock is not owned there.
\<close>

definition unwind :: "64 word \<Rightarrow> World \<Rightarrow> World" where
  "unwind sequenceId w =
    emit (Release (SequenceMutex sequenceId)) (emit (Release InferRequestsQueue) w)"

text \<open>
  Lines 283 to 291: the Sequence's mutex is released; on END the manager's mutex is taken
  again and the sequence removed. At the return the guard of the infer request is destroyed
  and then, if it is owned, the manager's lock.
\<close>

definition infer_finish :: "SequenceProcessingSpec \<Rightarrow> World \<Rightarrow> Status \<times> World" where
  "infer_finish sequenceProcessingSpec w =
    (let sequenceId = getSequenceId sequenceProcessingSpec;
         w = emit (Release (SequenceMutex sequenceId)) w in
     if getSequenceControlInput sequenceProcessingSpec = SEQUENCE_END then
       let w = emit (Acquire ManagerMutex) w in
       case removeSequence (theSequenceManager w) sequenceId of
         (status, manager) \<Rightarrow>
           let w = w\<lparr>theSequenceManager := manager\<rparr> in
           if \<not> ok status then
             (status, emit (Release ManagerMutex) (emit (Release InferRequestsQueue) w))
           else
             (fromCode OK, emit (Release ManagerMutex) (emit (Release InferRequestsQueue) w))
     else
       (fromCode OK, emit (Release InferRequestsQueue) w))"

text \<open>
  Lines 230 to 292, entered with the Sequence's mutex held: the infer request is taken from
  the queue, then pre-inference processing, deserialization, inference, serialization and
  post-inference processing run in this order, each returning at once when it fails. What
  post-inference processing writes through the reference \<open>sequence\<close> is stored in the manager.
\<close>

definition infer_locked ::
  "External \<Rightarrow> PredictRequest \<Rightarrow> SequenceProcessingSpec \<Rightarrow> Sequence \<Rightarrow> World
    \<Rightarrow> Status \<times> World" where
  "infer_locked ext requestProto sequenceProcessingSpec sequence w =
    (let sequenceId = getSequenceId sequenceProcessingSpec;
         w = emit (Acquire InferRequestsQueue) w in
     case preInferenceProcessing (theInferRequest w) sequence sequenceProcessingSpec of
       (status, inferRequest) \<Rightarrow>
     let w = w\<lparr>theInferRequest := inferRequest\<rparr> in
     if \<not> ok status then (status, unwind sequenceId w)
     else
     case deserializePredictRequest ext requestProto (theInferRequest w) of
       (status, inferRequest) \<Rightarrow>
     let w = w\<lparr>theInferRequest := inferRequest\<rparr> in
     if \<not> ok status then (status, unwind sequenceId w)
     else
     case performInference ext (theInferRequest w) of
       (status, inferRequest) \<Rightarrow>
     let w = w\<lparr>theInferRequest := inferRequest\<rparr> in
     if \<not> ok status then (status, unwind sequenceId w)
     else
     case serializePredictResponse ext (theInferRequest w) (theResponse w) of
       (status, response) \<Rightarrow>
     let w = w\<lparr>theResponse := response\<rparr> in
     if \<not> ok status then (status, unwind sequenceId w)
     else
     case postInferenceProcessing (theResponse w) (theInferRequest w) sequence
            sequenceProcessingSpec of
       (status, response, inferRequest, sequence) \<Rightarrow>
     let w = w\<lparr>theResponse := response, theInferRequest := inferRequest,
               theSequenceManager := storeSequence (theSequenceManager w) sequenceId sequence\<rparr> in
     if \<not> ok status then (status, unwind sequenceId w)
     else infer_finish sequenceProcessingSpec w)"

definition infer :: "External \<Rightarrow> PredictRequest \<Rightarrow> World \<Rightarrow> Status \<times> World" where
  "infer ext requestProto w =
    (case infer_handoff ext requestProto w of
       Inl returned \<Rightarrow> returned
     | Inr (sequenceProcessingSpec, sequence, w) \<Rightarrow>
         infer_locked ext requestProto sequenceProcessingSpec sequence w)"

section \<open>The lock discipline\<close>

text \<open>
  A checker for the order of the two mutexes in a log of lock events, started with nothing
  held: \<open>manager\<close> tells whether the manager's mutex is held, \<open>sequence\<close> which Sequence's
  mutex is. The manager's mutex is taken only while no Sequence's mutex is held; a Sequence's
  mutex is taken only under the manager's mutex, and the very next event then releases the
  manager's mutex; a Sequence's mutex is released only while the manager's mutex is not held.
  Events of the infer requests queue do not matter to it.
\<close>

fun lockDiscipline :: "bool \<Rightarrow> 64 word option \<Rightarrow> Event list \<Rightarrow> bool" where
  "lockDiscipline manager sequence [] = True"
| "lockDiscipline manager sequence (Acquire ManagerMutex # events) =
    (\<not> manager \<and> sequence = None \<and> lockDiscipline True sequence events)"
| "lockDiscipline manager sequence (Acquire (SequenceMutex sequenceId) # events) =
    (manager \<and> sequence = None \<and>
     (case events of Release ManagerMutex # _ \<Rightarrow> True | _ \<Rightarrow> False) \<and>
     lockDiscipline manager (Some sequenceId) events)"
| "lockDiscipline manager sequence (Release ManagerMutex # events) =
    (manager \<and> lockDiscipline False sequence events)"
| "lockDiscipline manager sequence (Release (SequenceMutex sequenceId) # events) =
    (\<not> manager \<and> sequence = Some sequenceId \<and> lockDiscipline manager None events)"
| "lockDiscipline manager sequence (Acquire InferRequestsQueue # events) =
    lockDiscipline manager sequence events"
| "lockDiscipline manager sequence (Release InferRequestsQueue # events) =
    lockDiscipline manager sequence events"

section \<open>Example inputs\<close>

text \<open>A request that carries both special inputs, each of shape (1).\<close>

definition specialInputs :: "64 word \<Rightarrow> 32 word \<Rightarrow> PredictRequest" where
  "specialInputs sequenceId control =
    \<lparr>inputs =
       [''sequence_id'' \<mapsto>
          \<lparr>dtype = DT_UINT64, tensor_shape = [1], uint64_val = [sequenceId], uint32_val = []\<rparr>,
        ''sequence_control_input'' \<mapsto>
          \<lparr>dtype = DT_UINT32, tensor_shape = [1], uint64_val = [], uint32_val = [control]\<rparr>]\<rparr>"

text \<open>External steps that all succeed and change nothing, and the same with a failing
  inference step.\<close>

definition workingExternal :: External where
  "workingExternal =
    \<lparr>request_validation_utils_validate = (\<lambda>request. fromCode OK),
     deserializePredictRequest = (\<lambda>request inferRequest. (fromCode OK, inferRequest)),
     performInference = (\<lambda>inferRequest. (fromCode OK, inferRequest)),
     serializePredictResponse = (\<lambda>inferRequest response. (fromCode OK, response))\<rparr>"

definition failingInference :: External where
  "failingInference =
    workingExternal\<lparr>performInference :=
      (\<lambda>inferRequest. (fromCode OV_INTERNAL_INFERENCE_ERROR, inferRequest))\<rparr>"

text \<open>A model with an output named \<open>sequence_id\<close>, of shape (2): serialization writes it
  into the response.\<close>

definition collidingOutput :: External where
  "collidingOutput =
    workingExternal\<lparr>serializePredictResponse :=
      (\<lambda>inferRequest response.
         (fromCode OK,
          response\<lparr>outputs := (outputs response)(''sequence_id'' \<mapsto>
            \<lparr>dtype = DT_FLOAT, tensor_shape = [2], uint64_val = [], uint32_val = []\<rparr>)\<rparr>))\<rparr>"

text \<open>An infer request with two state slots, a Sequence that has saved both and is marked
  idle, and a Sequence that has saved only the first.\<close>

definition exampleInferRequest :: InferRequest where
  "exampleInferRequest =
    \<lparr>query_state =
       [\<lparr>get_name = ''h'', get_state = [1], default_state = [0]\<rparr>,
        \<lparr>get_name = ''c'', get_state = [2], default_state = [0]\<rparr>],
     tensors = Map.empty\<rparr>"

definition savedSequence :: Sequence where
  "savedSequence = \<lparr>memoryState = [''h'' \<mapsto> [5], ''c'' \<mapsto> [6]], idle = True\<rparr>"

definition staleSequence :: Sequence where
  "staleSequence = \<lparr>memoryState = [''h'' \<mapsto> [5]], idle = False\<rparr>"

text \<open>A model instance that holds the sequence 42, with an empty response and an empty log.\<close>

definition exampleWorld :: World where
  "exampleWorld =
    \<lparr>theSequenceManager = \<lparr>sequences = [(42, savedSequence)], maxSequenceNumber = 10\<rparr>,
     theInferRequest = exampleInferRequest,
     theResponse = \<lparr>outputs = Map.empty\<rparr>,
     lockEvents = []\<rparr>"

section \<open>Basic facts\<close>

lemma ok_fromCode: "ok (fromCode c) = (c = OK)"
  by (simp add: ok_def fromCode_def)

lemma getCode_fromCode: "getCode (fromCode c) = c"
  by (simp add: fromCode_def)

lemma control_values:
  "SEQUENCE_END = 2" "NO_CONTROL_INPUT = 0" "SEQUENCE_START = 1"
  by (simp_all add: SEQUENCE_END_def NO_CONTROL_INPUT_def SEQUENCE_START_def)

section \<open>Extraction and validation of the special inputs\<close>

text \<open>
  C6, as amended: for each of the two special input tensors, extraction fails in a fixed order
  of priority. A tensor without dimensions gives \<open>SPECIAL_INPUT_NO_TENSOR_SHAPE\<close>, whatever
  its values are; two or more dimensions give \<open>INVALID_NO_OF_SHAPE_DIMENSIONS\<close>, whatever
  their sizes and the values are; one dimension of a size other than 1 gives \<open>INVALID_SHAPE\<close>,
  whatever the values are; and a tensor of shape (1) gives \<open>SEQUENCE_ID_BAD_TYPE\<close> (for the
  control input \<open>SEQUENCE_CONTROL_INPUT_BAD_TYPE\<close>) exactly when its typed value field,
  \<open>uint64_val\<close> (for the control input \<open>uint32_val\<close>), does not hold exactly one entry, and
  succeeds with that entry otherwise. The declared element type is not among the checks: it
  changes no result. Every failure leaves the out-parameter as it was.
\<close>

theorem extraction_failure_priority:
  "(tensor_shape proto = [] \<longrightarrow>
      extractSequenceId proto i = (fromCode SPECIAL_INPUT_NO_TENSOR_SHAPE, i) \<and>
      extractSequenceControlInput proto c = (fromCode SPECIAL_INPUT_NO_TENSOR_SHAPE, c)) \<and>
   (2 \<le> length (tensor_shape proto) \<longrightarrow>
      getCode (fst (extractSequenceId proto i)) = INVALID_NO_OF_SHAPE_DIMENSIONS \<and>
      snd (extractSequenceId proto i) = i \<and>
      getCode (fst (extractSequenceControlInput proto c)) = INVALID_NO_OF_SHAPE_DIMENSIONS \<and>
      snd (extractSequenceControlInput proto c) = c) \<and>
   (\<forall>d. tensor_shape proto = [d] \<and> d \<noteq> 1 \<longrightarrow>
      getCode (fst (extractSequenceId proto i)) = INVALID_SHAPE \<and>
      snd (extractSequenceId proto i) = i \<and>
      getCode (fst (extractSequenceControlInput proto c)) = INVALID_SHAPE \<and>
      snd (extractSequenceControlInput proto c) = c) \<and>
   (tensor_shape proto = [1] \<and> length (uint64_val proto) \<noteq> 1 \<longrightarrow>
      extractSequenceId proto i = (fromCode SEQUENCE_ID_BAD_TYPE, i)) \<and>
   (tensor_shape proto = [1] \<and> length (uint32_val proto) \<noteq> 1 \<longrightarrow>
      extractSequenceControlInput proto c = (fromCode SEQUENCE_CONTROL_INPUT_BAD_TYPE, c)) \<and>
   (\<forall>v. tensor_shape proto = [1] \<and> uint64_val proto = [v] \<longrightarrow>
      extractSequenceId proto i = (fromCode OK, v)) \<and>
   (\<forall>v. tensor_shape proto = [1] \<and> uint32_val proto = [v] \<longrightarrow>
      extractSequenceControlInput proto c = (fromCode OK, v)) \<and>
   (getCode (fst (extractSequenceId proto i)) = OK \<longrightarrow>
      tensor_shape proto = [1] \<and> length (uint64_val proto) = 1) \<and>
   (getCode (fst (extractSequenceControlInput proto c)) = OK \<longrightarrow>
      tensor_shape proto = [1] \<and> length (uint32_val proto) = 1) \<and>
   extractSequenceId (proto\<lparr>dtype := declared\<rparr>) i = extractSequenceId proto i \<and>
   extractSequenceControlInput (proto\<lparr>dtype := declared\<rparr>) c
     = extractSequenceControlInput proto c"
  by (cases "tensor_shape proto")
     (auto simp: extractSequenceId_def extractSequenceControlInput_def getCode_fromCode
        fromCode_def)

theorem extraction_failure_priority_witness:
  "getCode (fst (extractSequenceId
      \<lparr>dtype = DT_FLOAT, tensor_shape = [], uint64_val = [], uint32_val = []\<rparr> 0))
     = SPECIAL_INPUT_NO_TENSOR_SHAPE \<and>
   getCode (fst (extractSequenceId
      \<lparr>dtype = DT_FLOAT, tensor_shape = [2, 3], uint64_val = [], uint32_val = []\<rparr> 0))
     = INVALID_NO_OF_SHAPE_DIMENSIONS \<and>
   getCode (fst (extractSequenceControlInput
      \<lparr>dtype = DT_FLOAT, tensor_shape = [2], uint64_val = [], uint32_val = []\<rparr> 0))
     = INVALID_SHAPE \<and>
   getCode (fst (extractSequenceId
      \<lparr>dtype = DT_FLOAT, tensor_shape = [1], uint64_val = [], uint32_val = []\<rparr> 0))
     = SEQUENCE_ID_BAD_TYPE \<and>
   getCode (fst (extractSequenceControlInput
      \<lparr>dtype = DT_FLOAT, tensor_shape = [1], uint64_val = [], uint32_val = []\<rparr> 0))
     = SEQUENCE_CONTROL_INPUT_BAD_TYPE \<and>
   extractSequenceId
      \<lparr>dtype = DT_UINT64, tensor_shape = [1], uint64_val = [3, 4], uint32_val = []\<rparr> 0
     = (fromCode SEQUENCE_ID_BAD_TYPE, 0) \<and>
   extractSequenceId
      \<lparr>dtype = DT_UINT64, tensor_shape = [1], uint64_val = [9], uint32_val = []\<rparr> 0
     = (fromCode OK, 9) \<and>
   extractSequenceControlInput
      \<lparr>dtype = DT_UINT32, tensor_shape = [1], uint64_val = [], uint32_val = [2]\<rparr> 0
     = (fromCode OK, 2)"
  using
    extraction_failure_priority
      [of "\<lparr>dtype = DT_FLOAT, tensor_shape = [], uint64_val = [], uint32_val = []\<rparr>" 0 0]
    extraction_failure_priority
      [of "\<lparr>dtype = DT_FLOAT, tensor_shape = [2, 3], uint64_val = [], uint32_val = []\<rparr>" 0 0]
    extraction_failure_priority
      [of "\<lparr>dtype = DT_FLOAT, tensor_shape = [2], uint64_val = [], uint32_val = []\<rparr>" 0 0]
    extraction_failure_priority
      [of "\<lparr>dtype = DT_FLOAT, tensor_shape = [1], uint64_val = [], uint32_val = []\<rparr>" 0 0]
    extraction_failure_priority
      [of "\<lparr>dtype = DT_UINT64, tensor_shape = [1], uint64_val = [3, 4], uint32_val = []\<rparr>" 0 0]
    extraction_failure_priority
      [of "\<lparr>dtype = DT_UINT64, tensor_shape = [1], uint64_val = [9], uint32_val = []\<rparr>" 0 0]
    extraction_failure_priority
      [of "\<lparr>dtype = DT_UINT32, tensor_shape = [1], uint64_val = [], uint32_val = [2]\<rparr>" 0 0]
  by (simp add: getCode_fromCode)

text \<open>
  The claim as stated fails for a wrong element type: a tensor of shape (1) declared as 32-bit
  signed, with one entry in \<open>uint64_val\<close> and one in \<open>uint32_val\<close>, is accepted by both
  extractors.
\<close>

theorem wrong_element_type_accepted_counterexample:
  "dtype \<lparr>dtype = DT_INT32, tensor_shape = [1], uint64_val = [7], uint32_val = [1]\<rparr>
     \<noteq> DT_UINT64 \<and>
   extractSequenceId
     \<lparr>dtype = DT_INT32, tensor_shape = [1], uint64_val = [7], uint32_val = [1]\<rparr> 0
     = (fromCode OK, 7) \<and>
   dtype \<lparr>dtype = DT_INT32, tensor_shape = [1], uint64_val = [7], uint32_val = [1]\<rparr>
     \<noteq> DT_UINT32 \<and>
   extractSequenceControlInput
     \<lparr>dtype = DT_INT32, tensor_shape = [1], uint64_val = [7], uint32_val = [1]\<rparr> 0
     = (fromCode OK, 1)"
  by (simp add: extractSequenceId_def extractSequenceControlInput_def)

text \<open>
  C10: for a tensor proto of shape (1), \<^verbatim>\<open>extractSequenceId\<close> succeeds exactly when
  \<open>uint64_val\<close> holds one entry, and then yields that entry; with no entry or with two or more
  it returns \<open>SEQUENCE_ID_BAD_TYPE\<close>. \<^verbatim>\<open>extractSequenceControlInput\<close> does the same on
  \<open>uint32_val\<close>, with \<open>SEQUENCE_CONTROL_INPUT_BAD_TYPE\<close>. The declared \<open>dtype\<close> is never
  inspected: changing it changes neither result.
\<close>

theorem extraction_value_field_only:
  "tensor_shape proto = [1] \<Longrightarrow>
     (ok (fst (extractSequenceId proto i)) \<longleftrightarrow> length (uint64_val proto) = 1) \<and>
     (\<forall>v. uint64_val proto = [v] \<longrightarrow> extractSequenceId proto i = (fromCode OK, v)) \<and>
     (length (uint64_val proto) \<noteq> 1 \<longrightarrow>
        extractSequenceId proto i = (fromCode SEQUENCE_ID_BAD_TYPE, i)) \<and>
     (ok (fst (extractSequenceControlInput proto c)) \<longleftrightarrow> length (uint32_val proto) = 1) \<and>
     (\<forall>v. uint32_val proto = [v] \<longrightarrow> extractSequenceControlInput proto c = (fromCode OK, v)) \<and>
     (length (uint32_val proto) \<noteq> 1 \<longrightarrow>
        extractSequenceControlInput proto c = (fromCode SEQUENCE_CONTROL_INPUT_BAD_TYPE, c)) \<and>
     extractSequenceId (proto\<lparr>dtype := declared\<rparr>) i = extractSequenceId proto i \<and>
     extractSequenceControlInput (proto\<lparr>dtype := declared\<rparr>) c
       = extractSequenceControlInput proto c"
  by (auto simp: extractSequenceId_def extractSequenceControlInput_def ok_fromCode)

theorem extraction_value_field_only_witness:
  "tensor_shape \<lparr>dtype = DT_FLOAT, tensor_shape = [1], uint64_val = [5], uint32_val = [1, 2]\<rparr>
     = [1] \<and>
   extractSequenceId
     \<lparr>dtype = DT_FLOAT, tensor_shape = [1], uint64_val = [5], uint32_val = [1, 2]\<rparr> 0
     = (fromCode OK, 5) \<and>
   extractSequenceControlInput
     \<lparr>dtype = DT_FLOAT, tensor_shape = [1], uint64_val = [5], uint32_val = [1, 2]\<rparr> 0
     = (fromCode SEQUENCE_CONTROL_INPUT_BAD_TYPE, 0)"
  using extraction_value_field_only
    [of "\<lparr>dtype = DT_FLOAT, tensor_shape = [1], uint64_val = [5], uint32_val = [1, 2]\<rparr>" 0 0]
  by simp

text \<open>
  C5: \<^verbatim>\<open>validateSpecialKeys\<close>, once both extractions have succeeded with an id and a
  control value, first rejects every control value other than 0 (CONTINUE), 1 (START) and
  2 (END) with \<open>INVALID_SEQUENCE_CONTROL_INPUT\<close>, whatever the id is; then CONTINUE or END with
  id 0 fails with \<open>SEQUENCE_ID_NOT_PROVIDED\<close>; and only when both checks pass is the
  processing spec populated with the extracted id and control. Every failure, also one of
  the extraction, returns the spec untouched.
\<close>

theorem validateSpecialKeys_cross_field:
  "(\<forall>status. extractSpecialKeys request = Inl status \<longrightarrow>
      validateSpecialKeys request spec = (status, spec)) \<and>
   (\<forall>sequenceId control. extractSpecialKeys request = Inr (sequenceId, control) \<longrightarrow>
     (control \<noteq> 0 \<and> control \<noteq> 1 \<and> control \<noteq> 2 \<longrightarrow>
        validateSpecialKeys request spec = (fromCode INVALID_SEQUENCE_CONTROL_INPUT, spec)) \<and>
     ((control = 0 \<or> control = 2) \<and> sequenceId = 0 \<longrightarrow>
        validateSpecialKeys request spec = (fromCode SEQUENCE_ID_NOT_PROVIDED, spec)) \<and>
     (control = 1 \<or> (control = 0 \<or> control = 2) \<and> sequenceId \<noteq> 0 \<longrightarrow>
        validateSpecialKeys request spec =
          (fromCode OK,
           spec\<lparr>getSequenceId := sequenceId, getSequenceControlInput := control\<rparr>)))"
  by (simp add: validateSpecialKeys_def checkSpecialKeys_def control_values)

theorem validateSpecialKeys_cross_field_witness:
  "extractSpecialKeys
        \<lparr>inputs = [''sequence_id'' \<mapsto>
            \<lparr>dtype = DT_UINT64, tensor_shape = [1], uint64_val = [1], uint32_val = []\<rparr>,
          ''sequence_control_input'' \<mapsto>
            \<lparr>dtype = DT_UINT32, tensor_shape = [1], uint64_val = [], uint32_val = [9]\<rparr>]\<rparr>
        = Inr (1, 9) \<and>
   validateSpecialKeys
        \<lparr>inputs = [''sequence_id'' \<mapsto>
            \<lparr>dtype = DT_UINT64, tensor_shape = [1], uint64_val = [1], uint32_val = []\<rparr>,
          ''sequence_control_input'' \<mapsto>
            \<lparr>dtype = DT_UINT32, tensor_shape = [1], uint64_val = [], uint32_val = [9]\<rparr>]\<rparr>
        initialSequenceProcessingSpec
        = (fromCode INVALID_SEQUENCE_CONTROL_INPUT, initialSequenceProcessingSpec)"
proof -
  let ?request = "\<lparr>inputs = [''sequence_id'' \<mapsto>
            \<lparr>dtype = DT_UINT64, tensor_shape = [1], uint64_val = [1], uint32_val = []\<rparr>,
          ''sequence_control_input'' \<mapsto>
            \<lparr>dtype = DT_UINT32, tensor_shape = [1], uint64_val = [], uint32_val = [9]\<rparr>]\<rparr>"
  have extracted: "extractSpecialKeys ?request = Inr (1, 9)"
    by (simp add: extractSpecialKeys_def extractSequenceId_def extractSequenceControlInput_def
        ok_fromCode)
  from validateSpecialKeys_cross_field [of ?request initialSequenceProcessingSpec] extracted
  show ?thesis by simp
qed

text \<open>
  C7: a request without an input named \<open>sequence_id\<close> is validated as the same request with
  a \<open>sequence_id\<close> tensor of shape (1) holding 0; a request without an input named
  \<open>sequence_control_input\<close> is validated as the same request with a control tensor of shape
  (1) holding CONTINUE; and so a request with neither special input fails validation with
  \<open>SEQUENCE_ID_NOT_PROVIDED\<close>.
\<close>

theorem absent_special_inputs_default:
  "(inputs request ''sequence_id'' = None \<longrightarrow>
      validateSpecialKeys request spec =
        validateSpecialKeys
          (request\<lparr>inputs := (inputs request)(''sequence_id'' \<mapsto>
             \<lparr>dtype = DT_UINT64, tensor_shape = [1], uint64_val = [0], uint32_val = []\<rparr>)\<rparr>)
          spec) \<and>
   (inputs request ''sequence_control_input'' = None \<longrightarrow>
      validateSpecialKeys request spec =
        validateSpecialKeys
          (request\<lparr>inputs := (inputs request)(''sequence_control_input'' \<mapsto>
             \<lparr>dtype = DT_UINT32, tensor_shape = [1], uint64_val = [],
              uint32_val = [NO_CONTROL_INPUT]\<rparr>)\<rparr>)
          spec) \<and>
   (inputs request ''sequence_id'' = None \<and> inputs request ''sequence_control_input'' = None
      \<longrightarrow> validateSpecialKeys request spec = (fromCode SEQUENCE_ID_NOT_PROVIDED, spec))"
  by (auto simp: validateSpecialKeys_def extractSpecialKeys_def extractSequenceId_def
      extractSequenceControlInput_def checkSpecialKeys_def control_values ok_fromCode
      split: option.splits)

theorem absent_special_inputs_default_witness:
  "inputs \<lparr>inputs = Map.empty\<rparr> ''sequence_id'' = None \<and>
   inputs \<lparr>inputs = Map.empty\<rparr> ''sequence_control_input'' = None \<and>
   validateSpecialKeys \<lparr>inputs = Map.empty\<rparr> initialSequenceProcessingSpec
     = (fromCode SEQUENCE_ID_NOT_PROVIDED, initialSequenceProcessingSpec)"
  using absent_special_inputs_default
    [of "\<lparr>inputs = Map.empty\<rparr>" initialSequenceProcessingSpec, THEN conjunct2, THEN conjunct2]
  by simp

section \<open>Pre-inference processing\<close>

lemma restoreStates_all_present:
  "\<forall>state \<in> set states. m (get_name state) \<noteq> None \<Longrightarrow>
   restoreStates m states =
     (fromCode OK,
      map (\<lambda>state. case m (get_name state) of None \<Rightarrow> state
                    | Some tensor \<Rightarrow> set_state tensor state) states)"
  by (induction states) auto

lemma restoreStates_some_absent:
  "\<exists>state \<in> set states. m (get_name state) = None \<Longrightarrow>
   fst (restoreStates m states) = fromCode INTERNAL_ERROR"
proof (induction states)
  case Nil
  then show ?case by simp
next
  case (Cons state states)
  show ?case
  proof (cases "m (get_name state)")
    case None
    then show ?thesis by simp
  next
    case (Some tensor)
    with Cons.prems have "\<exists>state \<in> set states. m (get_name state) = None"
      by auto
    then have "fst (restoreStates m states) = fromCode INTERNAL_ERROR"
      by (rule Cons.IH)
    with Some show ?thesis
      by (cases "restoreStates m states") simp
  qed
qed

text \<open>
  C3: in \<^verbatim>\<open>preInferenceProcessing\<close>, a START resets every state slot of the infer request
  to the model's default and the call succeeds. For every other control signal (CONTINUE or
  END): when the Sequence's saved map holds the name of every state slot the infer request
  exposes, each slot is set to the payload saved under its name and the call succeeds; when
  the name of some exposed slot is absent from the map, the call returns \<open>INTERNAL_ERROR\<close>.
\<close>

theorem preInferenceProcessing_states:
  "(getSequenceControlInput spec = SEQUENCE_START \<longrightarrow>
      preInferenceProcessing inferRequest sequence spec =
        (fromCode OK, inferRequest\<lparr>query_state := map reset (query_state inferRequest)\<rparr>)) \<and>
   (getSequenceControlInput spec \<noteq> SEQUENCE_START \<and>
    (\<forall>state \<in> set (query_state inferRequest).
       getMemoryState sequence (get_name state) \<noteq> None) \<longrightarrow>
      preInferenceProcessing inferRequest sequence spec =
        (fromCode OK,
         inferRequest\<lparr>query_state :=
           map (\<lambda>state. case getMemoryState sequence (get_name state) of
                           None \<Rightarrow> state
                         | Some tensor \<Rightarrow> set_state tensor state)
             (query_state inferRequest)\<rparr>)) \<and>
   (getSequenceControlInput spec \<noteq> SEQUENCE_START \<and>
    (\<exists>state \<in> set (query_state inferRequest).
       getMemoryState sequence (get_name state) = None) \<longrightarrow>
      fst (preInferenceProcessing inferRequest sequence spec) = fromCode INTERNAL_ERROR)"
proof (intro conjI impI)
  assume "getSequenceControlInput spec = SEQUENCE_START"
  then show "preInferenceProcessing inferRequest sequence spec =
        (fromCode OK, inferRequest\<lparr>query_state := map reset (query_state inferRequest)\<rparr>)"
    by (simp add: preInferenceProcessing_def)
next
  assume a: "getSequenceControlInput spec \<noteq> SEQUENCE_START \<and>
    (\<forall>state \<in> set (query_state inferRequest).
       getMemoryState sequence (get_name state) \<noteq> None)"
  then show "preInferenceProcessing inferRequest sequence spec =
        (fromCode OK,
         inferRequest\<lparr>query_state :=
           map (\<lambda>state. case getMemoryState sequence (get_name state) of
                           None \<Rightarrow> state
                         | Some tensor \<Rightarrow> set_state tensor state)
             (query_state inferRequest)\<rparr>)"
    by (simp add: preInferenceProcessing_def restoreStates_all_present)
next
  assume a: "getSequenceControlInput spec \<noteq> SEQUENCE_START \<and>
    (\<exists>state \<in> set (query_state inferRequest).
       getMemoryState sequence (get_name state) = None)"
  then have "fst (restoreStates (getMemoryState sequence) (query_state inferRequest))
      = fromCode INTERNAL_ERROR"
    by (simp add: restoreStates_some_absent)
  with a show "fst (preInferenceProcessing inferRequest sequence spec) = fromCode INTERNAL_ERROR"
    by (cases "restoreStates (getMemoryState sequence) (query_state inferRequest)")
       (simp add: preInferenceProcessing_def)
qed

theorem preInferenceProcessing_states_witness:
  "preInferenceProcessing exampleInferRequest staleSequence
     \<lparr>getSequenceControlInput = SEQUENCE_START, getSequenceId = 42\<rparr>
     = (fromCode OK,
        \<lparr>query_state =
           [\<lparr>get_name = ''h'', get_state = [0], default_state = [0]\<rparr>,
            \<lparr>get_name = ''c'', get_state = [0], default_state = [0]\<rparr>],
         tensors = Map.empty\<rparr>) \<and>
   preInferenceProcessing exampleInferRequest savedSequence
     \<lparr>getSequenceControlInput = NO_CONTROL_INPUT, getSequenceId = 42\<rparr>
     = (fromCode OK,
        \<lparr>query_state =
           [\<lparr>get_name = ''h'', get_state = [5], default_state = [0]\<rparr>,
            \<lparr>get_name = ''c'', get_state = [6], default_state = [0]\<rparr>],
         tensors = Map.empty\<rparr>) \<and>
   fst (preInferenceProcessing exampleInferRequest staleSequence
     \<lparr>getSequenceControlInput = SEQUENCE_END, getSequenceId = 42\<rparr>)
     = fromCode INTERNAL_ERROR"
  using
    preInferenceProcessing_states [of
      "\<lparr>getSequenceControlInput = SEQUENCE_START, getSequenceId = 42\<rparr>"
      exampleInferRequest staleSequence]
    preInferenceProcessing_states [of
      "\<lparr>getSequenceControlInput = NO_CONTROL_INPUT, getSequenceId = 42\<rparr>"
      exampleInferRequest savedSequence]
    preInferenceProcessing_states [of
      "\<lparr>getSequenceControlInput = SEQUENCE_END, getSequenceId = 42\<rparr>"
      exampleInferRequest staleSequence]
  by (simp add: exampleInferRequest_def savedSequence_def staleSequence_def getMemoryState_def
      control_values reset_def set_state_def)

section \<open>The sequence manager\<close>

lemma getUniqueSequenceId_Some:
  "getUniqueSequenceId manager = Some uniqueId \<Longrightarrow>
     uniqueId \<noteq> 0 \<and> \<not> sequenceExists manager uniqueId"
  by (auto simp: getUniqueSequenceId_def find_Some_iff)

lemma sequenceExists_createSequence:
  "sequenceExists (createSequence manager sequenceId) other
     = (other = sequenceId \<or> sequenceExists manager other)"
  by (simp add: sequenceExists_def createSequence_def)


lemma processRequestedSpec_exists:
  "processRequestedSpec manager spec = (status, spec', manager') \<Longrightarrow> ok status \<Longrightarrow>
     sequenceExists manager' (getSequenceId spec')"
  by (auto simp: processRequestedSpec_def Let_def ok_fromCode sequenceExists_createSequence
      split: if_splits option.splits)

lemma processRequestedSpec_resolved_id:
  "processRequestedSpec manager spec = (status, spec', manager') \<Longrightarrow> ok status \<Longrightarrow>
     getSequenceId spec' \<noteq> 0 \<and>
     (getSequenceId spec \<noteq> 0 \<longrightarrow> getSequenceId spec' = getSequenceId spec)"
  by (auto simp: processRequestedSpec_def Let_def ok_fromCode
      dest: getUniqueSequenceId_Some split: if_splits option.splits)

lemma processRequestedSpec_not_start:
  "processRequestedSpec manager spec = (status, spec', manager') \<Longrightarrow>
   getSequenceControlInput spec \<noteq> SEQUENCE_START \<Longrightarrow>
     spec' = spec \<and> manager' = manager"
  by (auto simp: processRequestedSpec_def Let_def split: if_splits)

lemma processRequestedSpec_missing:
  "getSequenceControlInput spec = NO_CONTROL_INPUT \<or> getSequenceControlInput spec = SEQUENCE_END \<Longrightarrow>
   getSequenceId spec \<noteq> 0 \<Longrightarrow> \<not> sequenceExists manager (getSequenceId spec) \<Longrightarrow>
     processRequestedSpec manager spec = (fromCode SEQUENCE_MISSING, spec, manager)"
  by (auto simp: processRequestedSpec_def Let_def control_values)

lemma sequenceExists_getSequence:
  "sequenceExists manager sequenceId \<longleftrightarrow> (\<exists>sequence. getSequence manager sequenceId = Some sequence)"
  by (simp add: sequenceExists_def getSequence_def)

lemma postInferenceProcessing_ok:
  "postInferenceProcessing response inferRequest sequence spec = (status, rest) \<Longrightarrow>
     status = fromCode OK"
  by (auto simp: postInferenceProcessing_def Let_def split: if_splits prod.splits)

lemma keys_storeSequence:
  "map fst (sequences (storeSequence manager sequenceId sequence)) = map fst (sequences manager)"
  by (simp add: storeSequence_def comp_def if_distrib [of fst] cong: if_cong)


lemma sequenceExists_keys:
  "sequenceExists manager sequenceId \<longleftrightarrow> sequenceId \<in> set (map fst (sequences manager))"
  unfolding sequenceExists_def by (simp add: map_of_eq_None_iff)

lemma sequenceExists_storeSequence:
  "sequenceExists (storeSequence manager sequenceId sequence) other
     = sequenceExists manager other"
  unfolding sequenceExists_keys by (simp only: keys_storeSequence)

lemma removeSequence_absent:
  "removeSequence manager sequenceId = (status, manager') \<Longrightarrow> ok status \<Longrightarrow>
     \<not> sequenceExists manager' sequenceId"
  unfolding sequenceExists_keys
  by (auto simp: removeSequence_def ok_fromCode split: if_splits)

section \<open>The pipeline\<close>

lemma checkSpecialKeys_ok:
  "checkSpecialKeys sequenceId control spec0 = (status, spec) \<Longrightarrow> ok status \<Longrightarrow>
     getSequenceId spec = sequenceId \<and> getSequenceControlInput spec = control \<and>
     (control = SEQUENCE_START \<or>
      (control = NO_CONTROL_INPUT \<or> control = SEQUENCE_END) \<and> sequenceId \<noteq> 0)"
  by (auto simp: checkSpecialKeys_def ok_fromCode split: if_splits)

lemma extractSpecialKeys_Inl:
  "extractSpecialKeys request = Inl status \<Longrightarrow> \<not> ok status"
  by (auto simp: extractSpecialKeys_def Let_def split: prod.splits if_splits)

lemma validateSpecialKeys_ok:
  "validateSpecialKeys request spec0 = (status, spec) \<Longrightarrow> ok status \<Longrightarrow>
     getSequenceControlInput spec = SEQUENCE_START \<or>
     (getSequenceControlInput spec = NO_CONTROL_INPUT \<or>
      getSequenceControlInput spec = SEQUENCE_END) \<and> getSequenceId spec \<noteq> 0"
  by (auto simp: validateSpecialKeys_def split: sum.splits
      dest!: checkSpecialKeys_ok extractSpecialKeys_Inl)

lemma validate_ok:
  assumes "validate check request spec0 = (status, spec)" and "ok status"
  shows "getSequenceControlInput spec = SEQUENCE_START \<or>
     (getSequenceControlInput spec = NO_CONTROL_INPUT \<or>
      getSequenceControlInput spec = SEQUENCE_END) \<and> getSequenceId spec \<noteq> 0"
proof (cases "validateSpecialKeys request spec0")
  case (Pair status' spec')
  with assms have "ok status'" and "spec' = spec"
    by (auto simp: validate_def split: if_splits)
  with Pair show ?thesis
    by (auto dest: validateSpecialKeys_ok)
qed

lemma infer_handoff_invalid:
  "validate (request_validation_utils_validate ext) requestProto initialSequenceProcessingSpec = (status, spec) \<Longrightarrow>
   \<not> ok status \<Longrightarrow> infer_handoff ext requestProto w = Inl (status, w)"
  by (simp add: infer_handoff_def)

lemma infer_handoff_rejected:
  "validate (request_validation_utils_validate ext) requestProto initialSequenceProcessingSpec = (status, spec) \<Longrightarrow>
   ok status \<Longrightarrow>
   processRequestedSpec (theSequenceManager w) spec = (status', spec', manager') \<Longrightarrow>
   \<not> ok status' \<Longrightarrow>
   infer_handoff ext requestProto w =
     Inl (status', w\<lparr>theSequenceManager := manager',
            lockEvents := lockEvents w @ [Acquire ManagerMutex, Release ManagerMutex]\<rparr>)"
  by (simp add: infer_handoff_def emit_def)

lemma infer_handoff_accepted:
  assumes "validate (request_validation_utils_validate ext) requestProto initialSequenceProcessingSpec = (status, spec)"
    and "ok status"
    and "processRequestedSpec (theSequenceManager w) spec = (status', spec', manager')"
    and "ok status'"
  shows "\<exists>sequence. getSequence manager' (getSequenceId spec') = Some sequence \<and>
     infer_handoff ext requestProto w =
       Inr (spec', sequence,
            w\<lparr>theSequenceManager := manager',
              lockEvents := lockEvents w @
                [Acquire ManagerMutex, Acquire (SequenceMutex (getSequenceId spec')),
                 Release ManagerMutex]\<rparr>)"
proof -
  from assms(3,4) have "sequenceExists manager' (getSequenceId spec')"
    by (rule processRequestedSpec_exists)
  then obtain sequence where "getSequence manager' (getSequenceId spec') = Some sequence"
    by (auto simp: sequenceExists_getSequence)
  with assms \<open>sequenceExists manager' (getSequenceId spec')\<close> show ?thesis
    by (simp add: infer_handoff_def emit_def)
qed

lemma infer_finish_events:
  "lockEvents (snd (infer_finish spec w)) = lockEvents w @
     (if getSequenceControlInput spec = SEQUENCE_END then
        [Release (SequenceMutex (getSequenceId spec)), Acquire ManagerMutex,
         Release InferRequestsQueue, Release ManagerMutex]
      else [Release (SequenceMutex (getSequenceId spec)), Release InferRequestsQueue])"
  by (cases "removeSequence (theSequenceManager w) (getSequenceId spec)")
     (simp add: infer_finish_def emit_def Let_def)


lemma infer_finish_end:
  assumes "getSequenceControlInput spec = SEQUENCE_END" and "ok (fst (infer_finish spec w))"
  shows "\<not> sequenceExists (theSequenceManager (snd (infer_finish spec w))) (getSequenceId spec)"
proof (cases "removeSequence (theSequenceManager w) (getSequenceId spec)")
  case (Pair status manager)
  with assms have "ok status"
    by (simp add: infer_finish_def emit_def Let_def ok_fromCode split: if_splits)
  with Pair have "\<not> sequenceExists manager (getSequenceId spec)"
    by (rule removeSequence_absent)
  with Pair assms(1) show ?thesis
    by (simp add: infer_finish_def emit_def Let_def)
qed


lemma infer_locked_outcome:
  "(\<not> ok (fst (infer_locked ext requestProto spec sequence w)) \<and>
    theSequenceManager (snd (infer_locked ext requestProto spec sequence w))
      = theSequenceManager w \<and>
    lockEvents (snd (infer_locked ext requestProto spec sequence w))
      = lockEvents w @ [Acquire InferRequestsQueue, Release InferRequestsQueue,
          Release (SequenceMutex (getSequenceId spec))]) \<or>
   (\<exists>sequence' w'.
      infer_locked ext requestProto spec sequence w = infer_finish spec w' \<and>
      lockEvents w' = lockEvents w @ [Acquire InferRequestsQueue] \<and>
      theSequenceManager w' = storeSequence (theSequenceManager w) (getSequenceId spec) sequence')"
proof -
  obtain s1 ir1 where pre:
    "preInferenceProcessing (theInferRequest w) sequence spec = (s1, ir1)"
    by (cases "preInferenceProcessing (theInferRequest w) sequence spec")
  obtain s2 ir2 where des: "deserializePredictRequest ext requestProto ir1 = (s2, ir2)"
    by (cases "deserializePredictRequest ext requestProto ir1")
  obtain s3 ir3 where inf: "performInference ext ir2 = (s3, ir3)"
    by (cases "performInference ext ir2")
  obtain s4 r4 where ser: "serializePredictResponse ext ir3 (theResponse w) = (s4, r4)"
    by (cases "serializePredictResponse ext ir3 (theResponse w)")
  obtain s5 r5 ir5 seq5 where post:
    "postInferenceProcessing r4 ir3 sequence spec = (s5, r5, ir5, seq5)"
    by (cases "postInferenceProcessing r4 ir3 sequence spec") auto
  then have s5: "s5 = fromCode OK"
    by (rule postInferenceProcessing_ok)
  show ?thesis
  proof (cases "ok s1 \<and> ok s2 \<and> ok s3 \<and> ok s4")
    case False
    with pre des inf ser have "\<not> ok (fst (infer_locked ext requestProto spec sequence w)) \<and>
      theSequenceManager (snd (infer_locked ext requestProto spec sequence w))
        = theSequenceManager w \<and>
      lockEvents (snd (infer_locked ext requestProto spec sequence w))
        = lockEvents w @ [Acquire InferRequestsQueue, Release InferRequestsQueue,
            Release (SequenceMutex (getSequenceId spec))]"
      by (auto simp: infer_locked_def Let_def unwind_def emit_def)
    then show ?thesis ..
  next
    case True
    let ?w' = "w\<lparr>lockEvents := lockEvents w @ [Acquire InferRequestsQueue],
              theResponse := r5, theInferRequest := ir5,
              theSequenceManager :=
                storeSequence (theSequenceManager w) (getSequenceId spec) seq5\<rparr>"
    from True pre des inf ser post s5 have
      "infer_locked ext requestProto spec sequence w = infer_finish spec ?w'"
      by (simp add: infer_locked_def Let_def emit_def ok_fromCode)
    then have "infer_locked ext requestProto spec sequence w = infer_finish spec ?w' \<and>
      lockEvents ?w' = lockEvents w @ [Acquire InferRequestsQueue] \<and>
      theSequenceManager ?w' = storeSequence (theSequenceManager w) (getSequenceId spec) seq5"
      by simp
    then show ?thesis by blast
  qed
qed

lemma infer_invalid:
  assumes "validate (request_validation_utils_validate ext) requestProto initialSequenceProcessingSpec
      = (status, spec)" and "\<not> ok status"
  shows "infer ext requestProto w = (status, w)"
  using infer_handoff_invalid [OF assms] by (simp add: infer_def)

lemma infer_rejected:
  assumes "validate (request_validation_utils_validate ext) requestProto initialSequenceProcessingSpec
      = (status, spec)" and "ok status"
    and "processRequestedSpec (theSequenceManager w) spec = (status', spec', manager')"
    and "\<not> ok status'"
  shows "infer ext requestProto w =
     (status', w\<lparr>theSequenceManager := manager',
        lockEvents := lockEvents w @ [Acquire ManagerMutex, Release ManagerMutex]\<rparr>)"
  using infer_handoff_rejected [OF assms] by (simp add: infer_def)

lemma infer_accepted:
  assumes "validate (request_validation_utils_validate ext) requestProto initialSequenceProcessingSpec
      = (status, spec)" and "ok status"
    and "processRequestedSpec (theSequenceManager w) spec = (status', spec', manager')"
    and "ok status'"
  shows "\<exists>sequence. getSequence manager' (getSequenceId spec') = Some sequence \<and>
     infer ext requestProto w =
       infer_locked ext requestProto spec' sequence
         (w\<lparr>theSequenceManager := manager',
            lockEvents := lockEvents w @
              [Acquire ManagerMutex, Acquire (SequenceMutex (getSequenceId spec')),
               Release ManagerMutex]\<rparr>)"
  using infer_handoff_accepted [OF assms] by (auto simp: infer_def)

lemma infer_events:
  "\<exists>events.
     lockEvents (snd (infer ext requestProto w)) = lockEvents w @ events \<and>
     (events = [] \<or>
      events = [Acquire ManagerMutex, Release ManagerMutex] \<or>
      (\<exists>sequenceId.
         events = [Acquire ManagerMutex, Acquire (SequenceMutex sequenceId),
                   Release ManagerMutex, Acquire InferRequestsQueue,
                   Release InferRequestsQueue, Release (SequenceMutex sequenceId)] \<or>
         events = [Acquire ManagerMutex, Acquire (SequenceMutex sequenceId),
                   Release ManagerMutex, Acquire InferRequestsQueue,
                   Release (SequenceMutex sequenceId), Release InferRequestsQueue] \<or>
         events = [Acquire ManagerMutex, Acquire (SequenceMutex sequenceId),
                   Release ManagerMutex, Acquire InferRequestsQueue,
                   Release (SequenceMutex sequenceId), Acquire ManagerMutex,
                   Release InferRequestsQueue, Release ManagerMutex]))"
proof -
  obtain status spec where v:
    "validate (request_validation_utils_validate ext) requestProto initialSequenceProcessingSpec = (status, spec)"
    by (cases "validate (request_validation_utils_validate ext) requestProto initialSequenceProcessingSpec")
  obtain status' spec' manager' where p:
    "processRequestedSpec (theSequenceManager w) spec = (status', spec', manager')"
    by (cases "processRequestedSpec (theSequenceManager w) spec") auto
  show ?thesis
  proof (cases "ok status")
    case False
    from infer_invalid [OF v False] show ?thesis by simp
  next
    case True
    show ?thesis
    proof (cases "ok status'")
      case False
      from infer_rejected [OF v True p False] show ?thesis by simp
    next
      case ok': True
      let ?w = "w\<lparr>theSequenceManager := manager',
            lockEvents := lockEvents w @
              [Acquire ManagerMutex, Acquire (SequenceMutex (getSequenceId spec')),
               Release ManagerMutex]\<rparr>"
      from infer_accepted [OF v True p ok'] obtain sequence where
        i: "infer ext requestProto w = infer_locked ext requestProto spec' sequence ?w"
        by blast
      from infer_locked_outcome [of ext requestProto spec' sequence ?w]
      show ?thesis
      proof
        assume "\<not> ok (fst (infer_locked ext requestProto spec' sequence ?w)) \<and>
          theSequenceManager (snd (infer_locked ext requestProto spec' sequence ?w))
            = theSequenceManager ?w \<and>
          lockEvents (snd (infer_locked ext requestProto spec' sequence ?w))
            = lockEvents ?w @ [Acquire InferRequestsQueue, Release InferRequestsQueue,
                Release (SequenceMutex (getSequenceId spec'))]"
        with i show ?thesis by simp
      next
        assume "\<exists>sequence' w'.
          infer_locked ext requestProto spec' sequence ?w = infer_finish spec' w' \<and>
          lockEvents w' = lockEvents ?w @ [Acquire InferRequestsQueue] \<and>
          theSequenceManager w' =
            storeSequence (theSequenceManager ?w) (getSequenceId spec') sequence'"
        then obtain w' where
          f: "infer_locked ext requestProto spec' sequence ?w = infer_finish spec' w'"
          and e: "lockEvents w' = lockEvents ?w @ [Acquire InferRequestsQueue]"
          by blast
        from i f e infer_finish_events [of spec' w'] show ?thesis
          by (simp split: if_splits)
      qed
    qed
  qed
qed

lemma infer_accepted_outcome:
  assumes v: "validate (request_validation_utils_validate ext) requestProto
      initialSequenceProcessingSpec = (status, spec)" and o: "ok status"
    and p: "processRequestedSpec (theSequenceManager w) spec = (status', spec', manager')"
    and o': "ok status'"
  shows
    "(\<not> ok (fst (infer ext requestProto w)) \<and>
      theSequenceManager (snd (infer ext requestProto w)) = manager' \<and>
      lockEvents (snd (infer ext requestProto w)) = lockEvents w @
        [Acquire ManagerMutex, Acquire (SequenceMutex (getSequenceId spec')),
         Release ManagerMutex, Acquire InferRequestsQueue, Release InferRequestsQueue,
         Release (SequenceMutex (getSequenceId spec'))]) \<or>
     (\<exists>sequence' w'.
        infer ext requestProto w = infer_finish spec' w' \<and>
        lockEvents w' = lockEvents w @
          [Acquire ManagerMutex, Acquire (SequenceMutex (getSequenceId spec')),
           Release ManagerMutex, Acquire InferRequestsQueue] \<and>
        theSequenceManager w' = storeSequence manager' (getSequenceId spec') sequence')"
proof -
  let ?w = "w\<lparr>theSequenceManager := manager',
        lockEvents := lockEvents w @
          [Acquire ManagerMutex, Acquire (SequenceMutex (getSequenceId spec')),
           Release ManagerMutex]\<rparr>"
  from infer_accepted [OF v o p o'] obtain sequence where
    i: "infer ext requestProto w = infer_locked ext requestProto spec' sequence ?w"
    by blast
  from infer_locked_outcome [of ext requestProto spec' sequence ?w] i
  show ?thesis by simp
qed

lemma validate_specialInputs:
  "validate (\<lambda>request. fromCode OK) (specialInputs sequenceId control) spec =
     checkSpecialKeys sequenceId control spec"
  by (simp add: validate_def validateSpecialKeys_def extractSpecialKeys_def specialInputs_def
      extractSequenceId_def extractSequenceControlInput_def ok_fromCode checkSpecialKeys_def)

lemmas example_defs =
  infer_def infer_handoff_def infer_locked_def infer_finish_def unwind_def emit_def
  validate_specialInputs checkSpecialKeys_def control_values initialSequenceProcessingSpec_def
  processRequestedSpec_def getUniqueSequenceId_def createSequence_def newSequence_def
  sequenceExists_def getSequence_def removeSequence_def storeSequence_def
  preInferenceProcessing_def postInferenceProcessing_def updateMemoryState_def
  getMemoryState_def reset_def set_state_def emptyTensorProto_def
  workingExternal_def failingInference_def exampleWorld_def exampleInferRequest_def
  savedSequence_def ok_fromCode Let_def

section \<open>Post-inference processing\<close>

text \<open>
  Post-inference processing always succeeds. When the control signal is END it resets every
  state slot of the infer request and leaves the Sequence alone; otherwise it leaves the infer
  request alone and hands the whole of its current state to \<^verbatim>\<open>updateMemoryState\<close> of the
  Sequence. A response that holds no output named \<open>sequence_id\<close> gains one of shape (1) and
  element type unsigned-64 whose only value is the id of the processing spec, and no other
  output changes.
\<close>

lemma postInferenceProcessing_result:
  "\<exists>response'.
     postInferenceProcessing response inferRequest sequence spec =
       (fromCode OK, response',
        (if getSequenceControlInput spec = SEQUENCE_END
         then inferRequest\<lparr>query_state := map reset (query_state inferRequest)\<rparr>
         else inferRequest),
        (if getSequenceControlInput spec = SEQUENCE_END then sequence
         else updateMemoryState (query_state inferRequest) sequence)) \<and>
     (outputs response ''sequence_id'' = None \<longrightarrow>
        outputs response' ''sequence_id'' =
          Some \<lparr>dtype = DT_UINT64, tensor_shape = [1],
                uint64_val = [getSequenceId spec], uint32_val = []\<rparr>) \<and>
     (\<forall>name. name \<noteq> ''sequence_id'' \<longrightarrow> outputs response' name = outputs response name)"
  by (auto simp: postInferenceProcessing_def Let_def emptyTensorProto_def)

lemma infer_finish_response:
  "theResponse (snd (infer_finish spec w)) = theResponse w"
  by (cases "removeSequence (theSequenceManager w) (getSequenceId spec)")
     (simp add: infer_finish_def emit_def Let_def)

lemma infer_locked_response:
  assumes "ok (fst (infer_locked ext requestProto spec sequence w))"
  shows "\<exists>inferRequest.
    theResponse (snd (infer_locked ext requestProto spec sequence w)) =
      fst (snd (postInferenceProcessing
        (snd (serializePredictResponse ext inferRequest (theResponse w)))
        inferRequest sequence spec))"
proof -
  obtain s1 ir1 where pre:
    "preInferenceProcessing (theInferRequest w) sequence spec = (s1, ir1)"
    by (cases "preInferenceProcessing (theInferRequest w) sequence spec")
  obtain s2 ir2 where des: "deserializePredictRequest ext requestProto ir1 = (s2, ir2)"
    by (cases "deserializePredictRequest ext requestProto ir1")
  obtain s3 ir3 where inf: "performInference ext ir2 = (s3, ir3)"
    by (cases "performInference ext ir2")
  obtain s4 r4 where ser: "serializePredictResponse ext ir3 (theResponse w) = (s4, r4)"
    by (cases "serializePredictResponse ext ir3 (theResponse w)")
  obtain s5 r5 ir5 seq5 where post:
    "postInferenceProcessing r4 ir3 sequence spec = (s5, r5, ir5, seq5)"
    by (cases "postInferenceProcessing r4 ir3 sequence spec") auto
  then have s5: "s5 = fromCode OK"
    by (rule postInferenceProcessing_ok)
  have all_ok: "ok s1 \<and> ok s2 \<and> ok s3 \<and> ok s4"
  proof (rule ccontr)
    assume "\<not> (ok s1 \<and> ok s2 \<and> ok s3 \<and> ok s4)"
    with pre des inf ser have "\<not> ok (fst (infer_locked ext requestProto spec sequence w))"
      by (auto simp: infer_locked_def Let_def unwind_def emit_def)
    with assms show False by simp
  qed
  let ?w' = "w\<lparr>lockEvents := lockEvents w @ [Acquire InferRequestsQueue],
              theResponse := r5, theInferRequest := ir5,
              theSequenceManager :=
                storeSequence (theSequenceManager w) (getSequenceId spec) seq5\<rparr>"
  from all_ok pre des inf ser post s5 have
    "infer_locked ext requestProto spec sequence w = infer_finish spec ?w'"
    by (simp add: infer_locked_def Let_def emit_def ok_fromCode)
  then have "theResponse (snd (infer_locked ext requestProto spec sequence w)) = r5"
    by (simp add: infer_finish_response)
  with ser post have "theResponse (snd (infer_locked ext requestProto spec sequence w)) =
      fst (snd (postInferenceProcessing
        (snd (serializePredictResponse ext ir3 (theResponse w))) ir3 sequence spec))"
    by simp
  then show ?thesis ..
qed

text \<open>
  Through \<^verbatim>\<open>infer\<close>: when the response holds no output named \<open>sequence_id\<close> before the call
  and serialization leaves that name alone, every successful request, whatever its control
  signal, ends with an output \<open>sequence_id\<close> of shape (1) and element type unsigned-64 in the
  response, carrying the id of the spec that \<^verbatim>\<open>processRequestedSpec\<close> returned to \<^verbatim>\<open>infer\<close>:
  the id the client supplied when that was not 0, and never 0.
\<close>

lemma infer_writes_sequence_id:
  assumes v: "validate (request_validation_utils_validate ext) requestProto
      initialSequenceProcessingSpec = (status, spec)" and o: "ok status"
    and p: "processRequestedSpec (theSequenceManager w) spec = (status', spec', manager')"
    and r: "ok (fst (infer ext requestProto w))"
    and fresh: "outputs (theResponse w) ''sequence_id'' = None"
    and ser: "\<And>inferRequest response.
      outputs (snd (serializePredictResponse ext inferRequest response)) ''sequence_id''
        = outputs response ''sequence_id''"
  shows "outputs (theResponse (snd (infer ext requestProto w))) ''sequence_id'' =
      Some \<lparr>dtype = DT_UINT64, tensor_shape = [1],
            uint64_val = [getSequenceId spec'], uint32_val = []\<rparr> \<and>
    getSequenceId spec' \<noteq> 0 \<and>
    (getSequenceId spec \<noteq> 0 \<longrightarrow> getSequenceId spec' = getSequenceId spec)"
proof -
  have o': "ok status'"
  proof (rule ccontr)
    assume "\<not> ok status'"
    from infer_rejected [OF v o p this] r \<open>\<not> ok status'\<close> show False by simp
  qed
  let ?w = "w\<lparr>theSequenceManager := manager',
        lockEvents := lockEvents w @
          [Acquire ManagerMutex, Acquire (SequenceMutex (getSequenceId spec')),
           Release ManagerMutex]\<rparr>"
  from infer_accepted [OF v o p o'] obtain sequence where
    i: "infer ext requestProto w = infer_locked ext requestProto spec' sequence ?w"
    by blast
  with r have "ok (fst (infer_locked ext requestProto spec' sequence ?w))"
    by simp
  from infer_locked_response [OF this] obtain inferRequest where
    t: "theResponse (snd (infer_locked ext requestProto spec' sequence ?w)) =
      fst (snd (postInferenceProcessing
        (snd (serializePredictResponse ext inferRequest (theResponse ?w)))
        inferRequest sequence spec'))"
    by blast
  let ?serialized = "snd (serializePredictResponse ext inferRequest (theResponse ?w))"
  from ser [of inferRequest "theResponse ?w"] fresh
  have none: "outputs ?serialized ''sequence_id'' = None"
    by simp
  from postInferenceProcessing_result [of ?serialized inferRequest sequence spec'] none
  have "outputs (fst (snd (postInferenceProcessing ?serialized inferRequest sequence spec')))
      ''sequence_id'' =
      Some \<lparr>dtype = DT_UINT64, tensor_shape = [1],
            uint64_val = [getSequenceId spec'], uint32_val = []\<rparr>"
    by auto
  with i t have "outputs (theResponse (snd (infer ext requestProto w))) ''sequence_id'' =
      Some \<lparr>dtype = DT_UINT64, tensor_shape = [1],
            uint64_val = [getSequenceId spec'], uint32_val = []\<rparr>"
    by simp
  with processRequestedSpec_resolved_id [OF p o'] show ?thesis
    by simp
qed

text \<open>
  C2: the output is written with \<^verbatim>\<open>operator[]\<close>, \<^verbatim>\<open>add_dim\<close> and \<^verbatim>\<open>add_uint64_val\<close>, which
  extend an entry that is already there. For a model with an output named \<open>sequence_id\<close>, of
  shape (2), a CONTINUE for the sequence 42 starts from a response without that output and
  succeeds, yet the output \<open>sequence_id\<close> of the response has shape (2, 1), not (1).
\<close>

theorem colliding_output_sequence_id:
  "outputs (theResponse exampleWorld) ''sequence_id'' = None \<and>
   fst (infer collidingOutput (specialInputs 42 NO_CONTROL_INPUT) exampleWorld) = fromCode OK \<and>
   outputs (theResponse (snd (infer collidingOutput (specialInputs 42 NO_CONTROL_INPUT)
       exampleWorld))) ''sequence_id'' =
     Some \<lparr>dtype = DT_UINT64, tensor_shape = [2, 1], uint64_val = [42], uint32_val = []\<rparr>"
  by (simp add: example_defs collidingOutput_def)

section \<open>The hand-off from the manager's mutex to the Sequence's mutex\<close>

text \<open>
  C1, as amended: for every request whose validation and \<^verbatim>\<open>processRequestedSpec\<close> succeed,
  \<^verbatim>\<open>infer\<close> takes the manager's mutex, then the mutex of the target Sequence, and only then
  releases the manager's mutex, and goes on under the Sequence's mutex. It writes nothing to
  the manager or the Sequence in between: when the manager's mutex is released the manager is
  as \<^verbatim>\<open>processRequestedSpec\<close> left it, and for CONTINUE and END the target Sequence, its idle
  flag included, is as it was before the request.
\<close>

theorem infer_handoff_order:
  assumes v: "validate (request_validation_utils_validate ext) requestProto
      initialSequenceProcessingSpec = (status, spec)" and o: "ok status"
    and p: "processRequestedSpec (theSequenceManager w) spec = (status', spec', manager')"
    and o': "ok status'"
  shows "\<exists>sequence.
     getSequence manager' (getSequenceId spec') = Some sequence \<and>
     infer_handoff ext requestProto w =
       Inr (spec', sequence,
            w\<lparr>theSequenceManager := manager',
              lockEvents := lockEvents w @
                [Acquire ManagerMutex, Acquire (SequenceMutex (getSequenceId spec')),
                 Release ManagerMutex]\<rparr>) \<and>
     infer ext requestProto w =
       infer_locked ext requestProto spec' sequence
         (w\<lparr>theSequenceManager := manager',
            lockEvents := lockEvents w @
              [Acquire ManagerMutex, Acquire (SequenceMutex (getSequenceId spec')),
               Release ManagerMutex]\<rparr>) \<and>
     (getSequenceControlInput spec \<noteq> SEQUENCE_START \<longrightarrow>
        manager' = theSequenceManager w \<and>
        getSequence (theSequenceManager w) (getSequenceId spec) = Some sequence)"
proof -
  from infer_handoff_accepted [OF v o p o'] obtain sequence where
    g: "getSequence manager' (getSequenceId spec') = Some sequence"
    and h: "infer_handoff ext requestProto w =
       Inr (spec', sequence,
            w\<lparr>theSequenceManager := manager',
              lockEvents := lockEvents w @
                [Acquire ManagerMutex, Acquire (SequenceMutex (getSequenceId spec')),
                 Release ManagerMutex]\<rparr>)"
    by blast
  from h have i: "infer ext requestProto w =
       infer_locked ext requestProto spec' sequence
         (w\<lparr>theSequenceManager := manager',
            lockEvents := lockEvents w @
              [Acquire ManagerMutex, Acquire (SequenceMutex (getSequenceId spec')),
               Release ManagerMutex]\<rparr>)"
    by (simp add: infer_def)
  have "manager' = theSequenceManager w \<and>
        getSequence (theSequenceManager w) (getSequenceId spec) = Some sequence"
    if "getSequenceControlInput spec \<noteq> SEQUENCE_START"
    using processRequestedSpec_not_start [OF p that] g by simp
  with g h i show ?thesis by blast
qed

text \<open>A START with id 7 on a manager that holds the sequence 42.\<close>

theorem infer_handoff_order_witness:
  "infer_handoff workingExternal (specialInputs 7 SEQUENCE_START) exampleWorld =
     Inr (\<lparr>getSequenceControlInput = 1, getSequenceId = 7\<rparr>, newSequence,
          exampleWorld\<lparr>theSequenceManager := createSequence (theSequenceManager exampleWorld) 7,
            lockEvents :=
              [Acquire ManagerMutex, Acquire (SequenceMutex 7), Release ManagerMutex]\<rparr>)"
proof -
  let ?spec = "\<lparr>getSequenceControlInput = 1, getSequenceId = 7\<rparr>"
  have v: "validate (request_validation_utils_validate workingExternal)
      (specialInputs 7 SEQUENCE_START) initialSequenceProcessingSpec = (fromCode OK, ?spec)"
    by (simp add: workingExternal_def validate_specialInputs checkSpecialKeys_def
        control_values initialSequenceProcessingSpec_def)
  have p: "processRequestedSpec (theSequenceManager exampleWorld) ?spec =
      (fromCode OK, ?spec, createSequence (theSequenceManager exampleWorld) 7)"
    by (simp add: processRequestedSpec_def control_values sequenceExists_def exampleWorld_def)
  have o: "ok (fromCode OK)"
    by (simp add: ok_fromCode)
  have g: "getSequence (createSequence (theSequenceManager exampleWorld) 7) 7 = Some newSequence"
    by (simp add: getSequence_def createSequence_def)
  have l: "lockEvents exampleWorld = []"
    by (simp add: exampleWorld_def)
  from infer_handoff_order [OF v o p o] g l show ?thesis
    by auto
qed

text \<open>
  The claim as stated fails: a CONTINUE for the sequence 42, which is marked idle, passes
  validation and \<^verbatim>\<open>processRequestedSpec\<close>, and when the manager's mutex has been released the
  Sequence's idle flag is still set.
\<close>

theorem handoff_keeps_idle_flag_counterexample:
  "(case infer_handoff workingExternal (specialInputs 42 NO_CONTROL_INPUT) exampleWorld of
      Inl returned \<Rightarrow> False
    | Inr (spec, sequence, w) \<Rightarrow>
        lockEvents w =
          [Acquire ManagerMutex, Acquire (SequenceMutex 42), Release ManagerMutex] \<and>
        getSequence (theSequenceManager w) 42 = Some sequence \<and>
        idle sequence)"
  by (simp add: infer_handoff_def validate_def validateSpecialKeys_def extractSpecialKeys_def
      specialInputs_def extractSequenceId_def extractSequenceControlInput_def ok_fromCode
      workingExternal_def checkSpecialKeys_def control_values initialSequenceProcessingSpec_def
      processRequestedSpec_def sequenceExists_def getSequence_def exampleWorld_def emit_def
      savedSequence_def)

section \<open>Lock order\<close>

text \<open>
  C9: whatever the request, the lock events of \<^verbatim>\<open>infer\<close> are one of five sequences: none
  (validation failed); the manager's mutex taken and released (the spec was rejected); or the
  hand-off, in which the Sequence's mutex is taken under the manager's mutex and the manager's
  mutex is released at once, followed by the infer request and then either the unwinding of a
  failed step, or the release of the Sequence's mutex, or on END the release of the Sequence's
  mutex and only then the manager's mutex taken again. Each of them obeys the lock discipline:
  the manager's mutex is never taken while a Sequence's mutex is held, and both are held only
  between taking the Sequence's mutex and the release of the manager's mutex that follows it.
\<close>

theorem infer_lock_order:
  "\<exists>events.
     lockEvents (snd (infer ext requestProto w)) = lockEvents w @ events \<and>
     lockDiscipline False None events \<and>
     (events = [] \<or>
      events = [Acquire ManagerMutex, Release ManagerMutex] \<or>
      (\<exists>sequenceId.
         events = [Acquire ManagerMutex, Acquire (SequenceMutex sequenceId),
                   Release ManagerMutex, Acquire InferRequestsQueue,
                   Release InferRequestsQueue, Release (SequenceMutex sequenceId)] \<or>
         events = [Acquire ManagerMutex, Acquire (SequenceMutex sequenceId),
                   Release ManagerMutex, Acquire InferRequestsQueue,
                   Release (SequenceMutex sequenceId), Release InferRequestsQueue] \<or>
         events = [Acquire ManagerMutex, Acquire (SequenceMutex sequenceId),
                   Release ManagerMutex, Acquire InferRequestsQueue,
                   Release (SequenceMutex sequenceId), Acquire ManagerMutex,
                   Release InferRequestsQueue, Release ManagerMutex]))"
proof -
  from infer_events [of ext requestProto w] obtain events where
    l: "lockEvents (snd (infer ext requestProto w)) = lockEvents w @ events"
    and s: "events = [] \<or>
      events = [Acquire ManagerMutex, Release ManagerMutex] \<or>
      (\<exists>sequenceId.
         events = [Acquire ManagerMutex, Acquire (SequenceMutex sequenceId),
                   Release ManagerMutex, Acquire InferRequestsQueue,
                   Release InferRequestsQueue, Release (SequenceMutex sequenceId)] \<or>
         events = [Acquire ManagerMutex, Acquire (SequenceMutex sequenceId),
                   Release ManagerMutex, Acquire InferRequestsQueue,
                   Release (SequenceMutex sequenceId), Release InferRequestsQueue] \<or>
         events = [Acquire ManagerMutex, Acquire (SequenceMutex sequenceId),
                   Release ManagerMutex, Acquire InferRequestsQueue,
                   Release (SequenceMutex sequenceId), Acquire ManagerMutex,
                   Release InferRequestsQueue, Release ManagerMutex])"
    by blast
  from s have "lockDiscipline False None events"
    by auto
  with l s show ?thesis by blast
qed

section \<open>Failure semantics\<close>



section \<open>The end of a sequence\<close>

text \<open>
  C4: for a request with control END that passes validation and for which \<^verbatim>\<open>infer\<close>
  succeeds, the last part of \<^verbatim>\<open>infer\<close> starts with the Sequence's mutex still held and the
  sequence still in the manager; it releases the Sequence's mutex first, then takes the
  manager's mutex again and removes the sequence. Afterwards the id is absent from the
  manager, and a later CONTINUE or END that passes validation with the same id fails with
  \<open>SEQUENCE_MISSING\<close>.
\<close>

theorem end_removes_sequence:
  assumes v: "validate (request_validation_utils_validate ext) requestProto
      initialSequenceProcessingSpec = (status, spec)" and o: "ok status"
    and e: "getSequenceControlInput spec = SEQUENCE_END"
    and r: "ok (fst (infer ext requestProto w))"
  shows "(\<exists>w'. infer ext requestProto w = infer_finish spec w' \<and>
       lockEvents w' = lockEvents w @
         [Acquire ManagerMutex, Acquire (SequenceMutex (getSequenceId spec)),
          Release ManagerMutex, Acquire InferRequestsQueue] \<and>
       sequenceExists (theSequenceManager w') (getSequenceId spec)) \<and>
    lockEvents (snd (infer ext requestProto w)) = lockEvents w @
      [Acquire ManagerMutex, Acquire (SequenceMutex (getSequenceId spec)),
       Release ManagerMutex, Acquire InferRequestsQueue,
       Release (SequenceMutex (getSequenceId spec)), Acquire ManagerMutex,
       Release InferRequestsQueue, Release ManagerMutex] \<and>
    \<not> sequenceExists (theSequenceManager (snd (infer ext requestProto w))) (getSequenceId spec) \<and>
    (\<forall>ext' requestProto' status' spec'.
       validate (request_validation_utils_validate ext') requestProto'
         initialSequenceProcessingSpec = (status', spec') \<and> ok status' \<and>
       getSequenceId spec' = getSequenceId spec \<and>
       (getSequenceControlInput spec' = NO_CONTROL_INPUT \<or>
        getSequenceControlInput spec' = SEQUENCE_END) \<longrightarrow>
       fst (infer ext' requestProto' (snd (infer ext requestProto w)))
         = fromCode SEQUENCE_MISSING)"
proof -
  obtain status1 spec1 manager1 where p:
    "processRequestedSpec (theSequenceManager w) spec = (status1, spec1, manager1)"
    by (cases "processRequestedSpec (theSequenceManager w) spec") auto
  have o1: "ok status1"
  proof (rule ccontr)
    assume "\<not> ok status1"
    from infer_rejected [OF v o p this] r \<open>\<not> ok status1\<close> show False by simp
  qed
  from e have "getSequenceControlInput spec \<noteq> SEQUENCE_START"
    by (simp add: control_values)
  with p have same: "spec1 = spec"
    by (simp add: processRequestedSpec_not_start)
  from infer_accepted_outcome [OF v o p o1] r obtain sequence' w' where
    i: "infer ext requestProto w = infer_finish spec w'"
    and l: "lockEvents w' = lockEvents w @
          [Acquire ManagerMutex, Acquire (SequenceMutex (getSequenceId spec)),
           Release ManagerMutex, Acquire InferRequestsQueue]"
    and m: "theSequenceManager w' = storeSequence manager1 (getSequenceId spec) sequence'"
    unfolding same by blast
  from p o1 have "sequenceExists manager1 (getSequenceId spec)"
    unfolding same [symmetric] by (rule processRequestedSpec_exists)
  with m have present: "sequenceExists (theSequenceManager w') (getSequenceId spec)"
    by (simp add: sequenceExists_storeSequence)
  from i l e infer_finish_events [of spec w'] have events:
    "lockEvents (snd (infer ext requestProto w)) = lockEvents w @
      [Acquire ManagerMutex, Acquire (SequenceMutex (getSequenceId spec)),
       Release ManagerMutex, Acquire InferRequestsQueue,
       Release (SequenceMutex (getSequenceId spec)), Acquire ManagerMutex,
       Release InferRequestsQueue, Release ManagerMutex]"
    by simp
  from r i have "ok (fst (infer_finish spec w'))"
    by simp
  with e have "\<not> sequenceExists (theSequenceManager (snd (infer_finish spec w')))
      (getSequenceId spec)"
    by (rule infer_finish_end)
  with i have absent:
    "\<not> sequenceExists (theSequenceManager (snd (infer ext requestProto w))) (getSequenceId spec)"
    by simp
  have later: "fst (infer ext' requestProto' (snd (infer ext requestProto w)))
         = fromCode SEQUENCE_MISSING"
    if a: "validate (request_validation_utils_validate ext') requestProto'
         initialSequenceProcessingSpec = (status', spec') \<and> ok status' \<and>
       getSequenceId spec' = getSequenceId spec \<and>
       (getSequenceControlInput spec' = NO_CONTROL_INPUT \<or>
        getSequenceControlInput spec' = SEQUENCE_END)"
    for ext' requestProto' status' spec'
  proof -
    from a have v': "validate (request_validation_utils_validate ext') requestProto'
         initialSequenceProcessingSpec = (status', spec')" and o': "ok status'"
      and c: "getSequenceControlInput spec' = NO_CONTROL_INPUT \<or>
        getSequenceControlInput spec' = SEQUENCE_END"
      and same_id: "getSequenceId spec' = getSequenceId spec"
      by simp_all
    from validate_ok [OF v' o'] c have "getSequenceId spec' \<noteq> 0"
      by (auto simp: control_values)
    with c absent same_id have
      "processRequestedSpec (theSequenceManager (snd (infer ext requestProto w))) spec'
         = (fromCode SEQUENCE_MISSING, spec', theSequenceManager (snd (infer ext requestProto w)))"
      by (simp add: processRequestedSpec_missing)
    from infer_rejected [OF v' o' this] show ?thesis
      by (simp add: ok_fromCode)
  qed
  from i l present events absent later show ?thesis by blast
qed

text \<open>An END for the sequence 42, followed by a CONTINUE with the same id.\<close>

theorem end_removes_sequence_witness:
  "lockEvents (snd (infer workingExternal (specialInputs 42 SEQUENCE_END) exampleWorld)) =
      [Acquire ManagerMutex, Acquire (SequenceMutex 42), Release ManagerMutex,
       Acquire InferRequestsQueue, Release (SequenceMutex 42), Acquire ManagerMutex,
       Release InferRequestsQueue, Release ManagerMutex] \<and>
   \<not> sequenceExists
       (theSequenceManager (snd (infer workingExternal (specialInputs 42 SEQUENCE_END)
          exampleWorld))) 42 \<and>
   fst (infer workingExternal (specialInputs 42 NO_CONTROL_INPUT)
          (snd (infer workingExternal (specialInputs 42 SEQUENCE_END) exampleWorld)))
     = fromCode SEQUENCE_MISSING"
proof -
  let ?spec = "\<lparr>getSequenceControlInput = 2, getSequenceId = 42\<rparr>"
  let ?next = "\<lparr>getSequenceControlInput = 0, getSequenceId = 42\<rparr>"
  have v: "validate (request_validation_utils_validate workingExternal)
      (specialInputs 42 SEQUENCE_END) initialSequenceProcessingSpec = (fromCode OK, ?spec)"
    by (simp add: workingExternal_def validate_specialInputs checkSpecialKeys_def
        control_values initialSequenceProcessingSpec_def)
  have v': "validate (request_validation_utils_validate workingExternal)
      (specialInputs 42 NO_CONTROL_INPUT) initialSequenceProcessingSpec = (fromCode OK, ?next)"
    by (simp add: workingExternal_def validate_specialInputs checkSpecialKeys_def
        control_values initialSequenceProcessingSpec_def)
  have o: "ok (fromCode OK)"
    by (simp add: ok_fromCode)
  have e: "getSequenceControlInput ?spec = SEQUENCE_END"
    by (simp add: control_values)
  have r: "ok (fst (infer workingExternal (specialInputs 42 SEQUENCE_END) exampleWorld))"
    by (simp add: example_defs)
  have l: "lockEvents exampleWorld = []"
    by (simp add: exampleWorld_def)
  from end_removes_sequence [OF v o e r] v' o l show ?thesis
    by (auto simp: control_values)
qed

end
